theory Spec2Isabelle
  imports Complex_Main "HOL-Library.AList"
begin

section \<open>Values, errors and dictionaries\<close>

text \<open>
  A physical quantity of the source (\<^verbatim>\<open>quantities.Quantity\<close>, or a plain float) is
  modelled as a real number in one consistent system of units; the unit arithmetic is
  an external collaborator, except where the source reads the magnitude of a quantity
  it has not simplified (in \<^verbatim>\<open>pH\<close>): there the units are part of the model. An
  operation whose floating-point result would not be a finite real number (a division
  by zero, a negative base under a fractional power) yields \<open>NotFinite\<close>, and the
  model stops there. Arithmetic is exact: rounding is modelled only where a section
  says so.
\<close>

type_synonym quantity = real

datatype error =
    ValueError string
  | KeyError string
  | AttributeError string
  | NotFinite

text \<open>A dictionary is an association list with distinct keys, in insertion order.\<close>

type_synonym 'v dict = "(string \<times> 'v) list"

definition getitem :: "'v dict \<Rightarrow> string \<Rightarrow> error + 'v" where
  "getitem d k = (case map_of d k of None \<Rightarrow> Inl (KeyError k) | Some v \<Rightarrow> Inr v)"

definition setitem :: "string \<Rightarrow> 'v \<Rightarrow> 'v dict \<Rightarrow> 'v dict" where
  "setitem k v d = AList.update k v d"

definition dict_eq :: "'v dict \<Rightarrow> 'v dict \<Rightarrow> bool" where
  "dict_eq a b = list_all (\<lambda>k. map_of a k = map_of b k) (map fst a @ map fst b)"

definition getattr :: "string \<Rightarrow> 'v option \<Rightarrow> error + 'v" where
  "getattr name field = (case field of None \<Rightarrow> Inl (AttributeError name) | Some v \<Rightarrow> Inr v)"

definition rbind :: "error + 'a \<Rightarrow> ('a \<Rightarrow> error + 'b) \<Rightarrow> error + 'b" where
  "rbind m f = (case m of Inl e \<Rightarrow> Inl e | Inr v \<Rightarrow> f v)"

definition fdiv :: "real \<Rightarrow> real \<Rightarrow> error + real" where
  "fdiv x y = (if y = 0 then Inl NotFinite else Inr (x / y))"

definition fpow :: "real \<Rightarrow> real \<Rightarrow> error + real" where
  "fpow x y =
     (if 0 < x then Inr (x powr y)
      else if x = 0 then (if 0 < y then Inr 0 else if y = 0 then Inr 1 else Inl NotFinite)
      else if y = of_int \<lfloor>y\<rfloor>
        then Inr ((if even \<lfloor>y\<rfloor> then 1 else - 1) * ((- x) powr y))
        else Inl NotFinite)"

definition math_sqrt :: "real \<Rightarrow> error + real" where
  "math_sqrt x = (if x < 0 then Inl (ValueError ''math domain error'') else Inr (sqrt x))"

definition math_log10 :: "real \<Rightarrow> error + real" where
  "math_log10 x = (if x \<le> 0 then Inl (ValueError ''math domain error'') else Inr (log 10 x))"

section \<open>The agitator\<close>

record agitator =
  impeller_type :: string
  number :: int
  ag_diameter :: quantity
  ag_width :: quantity
  power_number :: real
  ungassed_power_coeff :: quantity

definition agitator_with :: "string \<Rightarrow> int \<Rightarrow> quantity \<Rightarrow> quantity \<Rightarrow> real \<Rightarrow> agitator" where
  "agitator_with t n d w pn =
     \<lparr>impeller_type = t, number = n, ag_diameter = d, ag_width = w,
      power_number = pn, ungassed_power_coeff = pn * 1000 * d ^ 5\<rparr>"

definition agitator_init :: "string \<Rightarrow> int \<Rightarrow> quantity \<Rightarrow> quantity \<Rightarrow> error + agitator" where
  "agitator_init t n d w =
     (if t = ''rushton'' then Inr (agitator_with t n d w 5.5)
      else if t = ''marine'' then Inr (agitator_with t n d w 2.2)
      else Inl (ValueError ''impeller not recognized!''))"

definition ungassed_power :: "agitator \<Rightarrow> quantity \<Rightarrow> quantity" where
  "ungassed_power ag RPS = RPS ^ 3 * ungassed_power_coeff ag"

section \<open>Configuration and inputs\<close>

text \<open>
  The module \<^verbatim>\<open>param\<close> holds the process-wide constants the reactor reads.
  Every constant read from it is a field of the record \<open>param\<close>, passed explicitly.
\<close>

record param =
  liquid_components :: "string list"
  gas_components :: "string list"
  kla_ratio :: "real dict"
  resolution :: quantity
  q_res :: quantity
  positively_charged :: "string list"
  negatively_charged :: "string list"
  viscosity :: quantity
  environment_temperature :: quantity
  volumetric_heat_capacity :: quantity
  actual_cc_density :: quantity
  gravity :: quantity

text \<open>The actuation command is a dictionary from names to quantities.\<close>

type_synonym actuation = "quantity dict"

text \<open>The cell state: \<^verbatim>\<open>cells['total_cells']\<close>, \<^verbatim>\<open>cells['volume']\<close> and
  \<^verbatim>\<open>cells['mass_transfer']\<close>.\<close>

record cells =
  total_cells :: quantity
  cell_volume :: quantity
  mass_transfer :: "quantity dict"

text \<open>The module-level table \<^verbatim>\<open>solubility\<close>.\<close>

definition solubility :: "(string \<times> (real \<Rightarrow> quantity)) list" where
  "solubility =
     [(''dO2'', \<lambda>t. 1.58 - t * 0.015),
      (''dCO2'', \<lambda>t. 48.39 - t * 0.61)]"

section \<open>The reactor state\<close>

text \<open>
  The constants that \<^verbatim>\<open>create_kla_function\<close> computes once and its closure
  captures.
\<close>

record kla_closure =
  diam_ratio :: real
  shape_A :: real
  shape_B :: real
  shape_C :: real
  froude_coeff :: real
  closure_CSA :: quantity

text \<open>
  The attributes \<^verbatim>\<open>kla\<close>, \<^verbatim>\<open>gas_percentages\<close>, \<^verbatim>\<open>mean_shear\<close> and
  \<^verbatim>\<open>max_shear\<close> do not exist until \<^verbatim>\<open>check_and_update\<close> first assigns them:
  they are optional fields, and reading an absent one is an \<open>AttributeError\<close>.

  The field \<open>mole\<close> holds the magnitudes of the inventory. Where the source reads
  a magnitude without simplifying the quantity first (only \<^verbatim>\<open>pH\<close> does), the unit
  matters: \<open>conc_unit\<close> is the pure number that one unit of amount per unit of
  working volume per \<^verbatim>\<open>Q(1, 'M')\<close> stands for, \<open>1/1000\<close> with amounts in millimole
  (the unit of the constructor's own entries) and the volume in litres, \<open>1\<close> with
  amounts in mole. All entries of the inventory are taken to carry the same unit.
\<close>

record bioreactor =
  volume :: quantity
  working_volume :: quantity
  the_agitator :: agitator
  CSA :: quantity
  diameter :: quantity
  current_time :: quantity
  sparger_pore_size :: quantity
  kla_func_closure :: kla_closure
  old :: actuation
  pressure :: quantity
  mole :: "quantity dict"
  conc_unit :: real
  sparger_height :: quantity
  temperature :: quantity
  overall_heat_transfer_coeff :: quantity
  kla :: "quantity option"
  gas_percentages :: "real dict option"
  mean_shear :: "quantity option"
  max_shear :: "quantity option"

section \<open>The gas-transfer correlation\<close>

definition create_kla_function :: "agitator \<Rightarrow> quantity \<Rightarrow> error + kla_closure" where
  "create_kla_function ag diam =
     rbind (fdiv (ag_diameter ag) diam) (\<lambda>r.
     rbind (fpow r 1.3) (\<lambda>r13.
       Inr \<lparr>diam_ratio = r,
            shape_A = 5.3 * exp (- 5.4 * r),
            shape_B = 0.47 * r13,
            shape_C = 0.64 - 1.1 * r,
            froude_coeff = ag_diameter ag / 9.81,
            closure_CSA = pi * diam ^ 2 / 4\<rparr>))"

definition froude_number :: "kla_closure \<Rightarrow> quantity \<Rightarrow> real" where
  "froude_number k RPS = froude_coeff k * RPS ^ 2"

definition aeration_number :: "agitator \<Rightarrow> quantity \<Rightarrow> quantity \<Rightarrow> error + real" where
  "aeration_number ag RPS gas_flow = fdiv gas_flow (RPS * ag_diameter ag ^ 3)"

definition lower_gassed_power ::
  "param \<Rightarrow> kla_closure \<Rightarrow> agitator \<Rightarrow> quantity \<Rightarrow> quantity \<Rightarrow> error + quantity" where
  "lower_gassed_power p k ag RPS gas_flow =
     rbind (aeration_number ag RPS gas_flow) (\<lambda>aeration.
     rbind (fpow (froude_number k RPS) 0.25) (\<lambda>froude025.
       Inr (ungassed_power ag RPS *
            (1 - (shape_B k - shape_A k * viscosity p / 1) * froude025 *
                 tanh (shape_C k * aeration)))))"

definition upper_gassed_power ::
  "kla_closure \<Rightarrow> agitator \<Rightarrow> quantity \<Rightarrow> quantity \<Rightarrow> error + quantity" where
  "upper_gassed_power k ag RPS gas_flow =
     rbind (aeration_number ag RPS gas_flow) (\<lambda>aeration.
     rbind (fpow aeration (shape_C k + 0.04 * froude_number k RPS)) (\<lambda>aer_pow.
       Inr (of_int (number ag - 1) * ungassed_power ag RPS *
            (1 - (shape_A k + shape_B k * froude_number k RPS) * aer_pow))))"

definition superficial_velocity :: "kla_closure \<Rightarrow> quantity \<Rightarrow> error + real" where
  "superficial_velocity k gas_flow = fdiv gas_flow (closure_CSA k)"

text \<open>
  \<^verbatim>\<open>kla_func\<close> returns \<^verbatim>\<open>Q(kla, '1/min')\<close>: a magnitude together with its unit.
\<close>

definition kla_func ::
  "param \<Rightarrow> kla_closure \<Rightarrow> agitator \<Rightarrow> quantity \<Rightarrow> quantity \<Rightarrow> quantity \<Rightarrow>
   error + quantity \<times> string" where
  "kla_func p k ag RPS gas_flow wv =
     rbind (lower_gassed_power p k ag RPS gas_flow) (\<lambda>lower.
     rbind (upper_gassed_power k ag RPS gas_flow) (\<lambda>upper.
     rbind (superficial_velocity k gas_flow) (\<lambda>sv.
     rbind (fdiv (lower + upper) wv) (\<lambda>power_per_volume.
     rbind (fpow power_per_volume 0.39) (\<lambda>ppv039.
     rbind (fpow sv 0.79) (\<lambda>sv079.
       Inr (1080 * ppv039 * sv079, ''1/min'')))))))"

section \<open>Construction\<close>

definition initial_mole :: "string list \<Rightarrow> quantity dict \<Rightarrow> quantity dict" where
  "initial_mole components initial_components =
     fold (\<lambda>(k, v). setitem k v) initial_components
       (fold (\<lambda>component. setitem component 0) components [])"

text \<open>
  The constructor. Its last argument here is the unit of the amounts per unit of the
  seed volume, which the quantities handed to the source carry with them.
\<close>

definition bioreactor_init ::
  "param \<Rightarrow> quantity \<Rightarrow> quantity dict \<Rightarrow> quantity \<Rightarrow> quantity \<Rightarrow> quantity \<Rightarrow> agitator \<Rightarrow>
   quantity \<Rightarrow> quantity \<Rightarrow> quantity \<Rightarrow> quantity \<Rightarrow> quantity \<Rightarrow> real \<Rightarrow> error + bioreactor" where
  "bioreactor_init p start_time initial_components seed_volume initial_temperature
       vol ag diam sparger_h sparger_pore head_pressure heat_transfer_coeff unit =
     (let csa = diam ^ 2 / 4 * pi in
      rbind (create_kla_function ag diam) (\<lambda>k.
      rbind (fdiv vol csa) (\<lambda>height.
        Inr \<lparr>volume = vol,
             working_volume = seed_volume,
             the_agitator = ag,
             CSA = csa,
             diameter = diam,
             current_time = start_time,
             sparger_pore_size = sparger_pore,
             kla_func_closure = k,
             old = [],
             pressure = sparger_h / 2 * actual_cc_density p * gravity p + head_pressure,
             mole = initial_mole (liquid_components p) initial_components,
             conc_unit = unit,
             sparger_height = sparger_h,
             temperature = initial_temperature,
             overall_heat_transfer_coeff =
               heat_transfer_coeff * (2 * csa + height * pi * diam),
             kla = None,
             gas_percentages = None,
             mean_shear = None,
             max_shear = None\<rparr>)))"

section \<open>Gas-phase composition\<close>

fun sum_flows :: "actuation \<Rightarrow> string list \<Rightarrow> quantity \<Rightarrow> error + quantity" where
  "sum_flows a [] tot = Inr tot"
| "sum_flows a (component # cs) tot =
     rbind (getitem a component) (\<lambda>flow. sum_flows a cs (tot + flow))"

fun fill_percent :: "actuation \<Rightarrow> quantity \<Rightarrow> string list \<Rightarrow> real dict \<Rightarrow> error + real dict" where
  "fill_percent a tot [] percent = Inr percent"
| "fill_percent a tot (component # cs) percent =
     rbind (getitem a component) (\<lambda>flow.
     rbind (fdiv flow tot) (\<lambda>fraction.
       fill_percent a tot cs (setitem (CHR ''d'' # component) fraction percent)))"

definition add_air_share :: "string \<Rightarrow> real \<Rightarrow> real dict \<Rightarrow> error + real dict" where
  "add_air_share species share percent =
     rbind (getitem percent species) (\<lambda>v.
     rbind (getitem percent ''dair'') (\<lambda>air.
       Inr (setitem species (v + air * share) percent)))"

definition calc_gas_percentages :: "param \<Rightarrow> actuation \<Rightarrow> error + real dict" where
  "calc_gas_percentages p a =
     rbind (sum_flows a (gas_components p) 0) (\<lambda>tot.
     rbind (fill_percent a tot (gas_components p) []) (\<lambda>percent.
     rbind (add_air_share ''dO2'' 0.21 percent) (\<lambda>percent.
       add_air_share ''dCO2'' 0.00045 percent)))"

section \<open>Shear and the change-detection cache\<close>

text \<open>
  A method that mutates the reactor returns the reactor as it is when the method
  ends, together with the error when it ends by raising: the assignments made before
  an exception stay.
\<close>

definition mean_shear_of :: "bioreactor \<Rightarrow> quantity \<Rightarrow> error + quantity" where
  "mean_shear_of br RPS =
     rbind (fdiv (ag_diameter (the_agitator br)) (diameter br)) (\<lambda>r.
     rbind (fpow r 0.3) (\<lambda>ratio.
       fdiv (4.2 * RPS * ratio * ag_diameter (the_agitator br)) (ag_width (the_agitator br))))"

definition update_shear :: "quantity \<Rightarrow> bioreactor \<Rightarrow> (error + unit) \<times> bioreactor" where
  "update_shear RPS br =
     (case mean_shear_of br RPS of
        Inl e \<Rightarrow> (Inl e, br)
      | Inr ms \<Rightarrow> (Inr (), br\<lparr>mean_shear := Some ms, max_shear := Some (ms / 4.2 * 9.7)\<rparr>))"

text \<open>The test \<^verbatim>\<open>actuation == self.old and actuation['liquid_volume'] == Q(0, 'L/min')\<close>;
  \<^verbatim>\<open>and\<close> reads the liquid feed rate only when the dictionaries are equal.\<close>

definition same_and_no_feed :: "actuation \<Rightarrow> bioreactor \<Rightarrow> error + bool" where
  "same_and_no_feed a br =
     (if dict_eq a (old br)
      then rbind (getitem a ''liquid_volume'') (\<lambda>lv. Inr (lv = 0))
      else Inr False)"

text \<open>
  The coefficient that \<^verbatim>\<open>check_and_update\<close> caches, as its magnitude per minute; the
  step length \<open>q_res\<close> it is later multiplied with is in minutes.
\<close>

definition new_kla :: "param \<Rightarrow> actuation \<Rightarrow> bioreactor \<Rightarrow> error + quantity" where
  "new_kla p a br =
     rbind (getitem a ''RPS'') (\<lambda>rps.
     rbind (getitem a ''gas_volume'') (\<lambda>gas_volume.
     rbind (kla_func p (kla_func_closure br) (the_agitator br) rps gas_volume (working_volume br))
       (\<lambda>rate. Inr (fst rate))))"

definition recompute :: "param \<Rightarrow> actuation \<Rightarrow> bioreactor \<Rightarrow> (error + unit) \<times> bioreactor" where
  "recompute p a br0 =
     (let br1 = br0\<lparr>old := a\<rparr> in
      case new_kla p a br1 of
        Inl e \<Rightarrow> (Inl e, br1)
      | Inr k \<Rightarrow>
          (let br2 = br1\<lparr>kla := Some k\<rparr> in
           case calc_gas_percentages p a of
             Inl e \<Rightarrow> (Inl e, br2)
           | Inr percent \<Rightarrow>
               (let br3 = br2\<lparr>gas_percentages := Some percent\<rparr> in
                case getitem a ''RPS'' of
                  Inl e \<Rightarrow> (Inl e, br3)
                | Inr rps \<Rightarrow> update_shear rps br3)))"

definition check_and_update :: "param \<Rightarrow> actuation \<Rightarrow> bioreactor \<Rightarrow> (error + unit) \<times> bioreactor" where
  "check_and_update p a br0 =
     (let br1 = br0\<lparr>current_time := current_time br0 + resolution p\<rparr> in
      case same_and_no_feed a br1 of
        Inl e \<Rightarrow> (Inl e, br1)
      | Inr True \<Rightarrow> (Inr (), br1)
      | Inr False \<Rightarrow> recompute p a br1)"

section \<open>The pH solver\<close>

text \<open>
  \<^verbatim>\<open>pH\<close> hands quantities to \<^verbatim>\<open>math.sqrt\<close> and \<^verbatim>\<open>math.log10\<close> without
  \<^verbatim>\<open>.simplified\<close>, so the arithmetic of the quantities package shows. A value
  is a plain number or a quantity, given by its magnitude and its unit (a pure
  number here, every quantity in \<^verbatim>\<open>pH\<close> being dimensionless). Addition and
  subtraction rescale the right operand to the unit of the left one, a plain number
  counting as unit 1; with a plain number on the left the result has the unit of the
  quantity on the right. The \<^verbatim>\<open>math\<close> functions read the bare magnitude.

  Every function takes the rounding of a floating-point operation as its first
  argument: the identity gives exact arithmetic.
\<close>

datatype number = Plain real | Quant real real

fun magnitude :: "number \<Rightarrow> real" where
  "magnitude (Plain x) = x"
| "magnitude (Quant m u) = m"

definition conversion :: "(real \<Rightarrow> real) \<Rightarrow> real \<Rightarrow> real \<Rightarrow> real \<Rightarrow> real" where
  "conversion rnd m u' u = (if u' = u then m else rnd (m * rnd (u' / u)))"

fun rescale :: "(real \<Rightarrow> real) \<Rightarrow> number \<Rightarrow> real \<Rightarrow> real" where
  "rescale rnd (Plain x) u = conversion rnd x 1 u"
| "rescale rnd (Quant m u') u = conversion rnd m u' u"

fun add_number :: "(real \<Rightarrow> real) \<Rightarrow> number \<Rightarrow> number \<Rightarrow> number" where
  "add_number rnd (Plain x) (Plain y) = Plain (rnd (x + y))"
| "add_number rnd (Plain x) (Quant m u) = Quant (rnd (rescale rnd (Plain x) u + m)) u"
| "add_number rnd (Quant m u) b = Quant (rnd (m + rescale rnd b u)) u"

fun sub_number :: "(real \<Rightarrow> real) \<Rightarrow> number \<Rightarrow> number \<Rightarrow> number" where
  "sub_number rnd (Plain x) (Plain y) = Plain (rnd (x - y))"
| "sub_number rnd (Plain x) (Quant m u) = Quant (rnd (rescale rnd (Plain x) u - m)) u"
| "sub_number rnd (Quant m u) b = Quant (rnd (m - rescale rnd b u)) u"

fun negate :: "number \<Rightarrow> number" where
  "negate (Plain x) = Plain (- x)"
| "negate (Quant m u) = Quant (- m) u"

fun halve :: "(real \<Rightarrow> real) \<Rightarrow> number \<Rightarrow> number" where
  "halve rnd (Plain x) = Plain (rnd (x / 2))"
| "halve rnd (Quant m u) = Quant (rnd (m / 2)) u"

fun square :: "(real \<Rightarrow> real) \<Rightarrow> number \<Rightarrow> number" where
  "square rnd (Plain x) = Plain (rnd (x ^ 2))"
| "square rnd (Quant m u) = Quant (rnd (m ^ 2)) (u ^ 2)"

definition divide_rounded :: "(real \<Rightarrow> real) \<Rightarrow> real \<Rightarrow> real \<Rightarrow> error + real" where
  "divide_rounded rnd x y = (if y = 0 then Inl NotFinite else Inr (rnd (x / y)))"

text \<open>The list \<^verbatim>\<open>[self.mole[species]/self.working_volume/Q(1, 'M') for species in
  self.mole if species in charged]\<close> and Python's \<^verbatim>\<open>sum\<close>, which starts from the
  integer 0 and adds from the left.\<close>

fun charge_terms ::
  "(real \<Rightarrow> real) \<Rightarrow> string list \<Rightarrow> real \<Rightarrow> quantity \<Rightarrow> quantity dict \<Rightarrow> error + number list" where
  "charge_terms rnd charged unit wv [] = Inr []"
| "charge_terms rnd charged unit wv ((species, m) # rest) =
     (if species \<in> set charged
      then rbind (divide_rounded rnd m wv) (\<lambda>conc.
           rbind (divide_rounded rnd conc 1) (\<lambda>conc_M.
           rbind (charge_terms rnd charged unit wv rest) (\<lambda>qs. Inr (Quant conc_M unit # qs))))
      else charge_terms rnd charged unit wv rest)"

definition sum_numbers :: "(real \<Rightarrow> real) \<Rightarrow> number list \<Rightarrow> number" where
  "sum_numbers rnd qs = foldl (add_number rnd) (Plain 0) qs"

definition net_charge_rounded :: "(real \<Rightarrow> real) \<Rightarrow> param \<Rightarrow> bioreactor \<Rightarrow> error + number" where
  "net_charge_rounded rnd p br =
     rbind (charge_terms rnd (positively_charged p) (conc_unit br) (working_volume br) (mole br))
       (\<lambda>positive.
     rbind (charge_terms rnd (negatively_charged p) (conc_unit br) (working_volume br) (mole br))
       (\<lambda>negative.
       Inr (sub_number rnd (sum_numbers rnd positive) (sum_numbers rnd negative))))"

text \<open>The argument of \<^verbatim>\<open>math.sqrt\<close>:
  \<^verbatim>\<open>(net_charge/2)**2 + 10**-14 + 10**-6.36*1.0017*self.mole['dCO2']/self.working_volume/Q(1, 'M')\<close>.\<close>

definition discriminant_rounded :: "(real \<Rightarrow> real) \<Rightarrow> bioreactor \<Rightarrow> number \<Rightarrow> error + number" where
  "discriminant_rounded rnd br nc =
     (let with_water = add_number rnd (square rnd (halve rnd nc)) (Plain (rnd (10 powr (- 14))))
      in rbind (getitem (mole br) ''dCO2'') (\<lambda>co2.
         rbind (divide_rounded rnd (rnd (rnd (rnd (10 powr (- 6.36)) * rnd 1.0017) * co2))
                  (working_volume br)) (\<lambda>conc.
         rbind (divide_rounded rnd conc 1) (\<lambda>conc_M.
           Inr (add_number rnd with_water (Quant conc_M (conc_unit br)))))))"

text \<open>The argument of \<^verbatim>\<open>math.log10\<close>: \<^verbatim>\<open>-net_charge/2 + math.sqrt(...)\<close>.\<close>

definition log_argument :: "(real \<Rightarrow> real) \<Rightarrow> number \<Rightarrow> real \<Rightarrow> number" where
  "log_argument rnd nc rt = add_number rnd (halve rnd (negate nc)) (Plain rt)"

definition pH_rounded :: "(real \<Rightarrow> real) \<Rightarrow> param \<Rightarrow> bioreactor \<Rightarrow> error + real" where
  "pH_rounded rnd p br =
     rbind (net_charge_rounded rnd p br) (\<lambda>nc.
     rbind (discriminant_rounded rnd br nc) (\<lambda>disc.
     rbind (math_sqrt (magnitude disc)) (\<lambda>root.
     rbind (math_log10 (magnitude (log_argument rnd nc (rnd root)))) (\<lambda>l.
       Inr (- rnd l)))))"

text \<open>Exact arithmetic.\<close>

definition net_charge :: "param \<Rightarrow> bioreactor \<Rightarrow> error + number" where
  "net_charge p br = net_charge_rounded (\<lambda>x. x) p br"

definition discriminant :: "bioreactor \<Rightarrow> number \<Rightarrow> error + number" where
  "discriminant br nc = discriminant_rounded (\<lambda>x. x) br nc"

definition pH :: "param \<Rightarrow> bioreactor \<Rightarrow> error + real" where
  "pH p br = pH_rounded (\<lambda>x. x) p br"

section \<open>The pH solver in binary64 arithmetic\<close>

text \<open>
  Whether the logarithm in \<^verbatim>\<open>pH\<close> receives a positive argument depends on rounding,
  so the solver is also given with every floating-point operation rounded to the
  nearest binary64 number, ties to even (overflow and subnormal numbers are left out;
  the library functions \<^verbatim>\<open>sqrt\<close>, \<^verbatim>\<open>log10\<close> and \<^verbatim>\<open>**\<close> and the conversion factors
  between units are taken as correctly rounded). The molar amounts and the working
  volume are taken to be binary64 numbers already. Everywhere else arithmetic is exact.
\<close>

definition round_even :: "real \<Rightarrow> int" where
  "round_even x =
     (let f = \<lfloor>x\<rfloor>; r = x - of_int f
      in if r < 1 / 2 then f else if 1 / 2 < r then f + 1 else if even f then f else f + 1)"

definition binary64 :: "real \<Rightarrow> real" where
  "binary64 x =
     (if x = 0 then 0
      else (let e = \<lfloor>log 2 \<bar>x\<bar>\<rfloor>
            in of_int (round_even (x * 2 powr of_int (52 - e))) * 2 powr of_int (e - 52)))"

definition pH64 :: "param \<Rightarrow> bioreactor \<Rightarrow> error + real" where
  "pH64 p br = pH_rounded binary64 p br"

section \<open>The step\<close>

definition total_moles :: "bioreactor \<Rightarrow> quantity" where
  "total_moles br = fold (\<lambda>(component, m) tot. tot + m) (mole br) 0"

definition exchanged :: "param \<Rightarrow> string \<Rightarrow> bool" where
  "exchanged p component \<longleftrightarrow> drop 1 component \<in> set (gas_components p)"

text \<open>
  The two branches of the loop over the liquid components. Each evaluates the new
  molar amount first and assigns it last, so a branch that raises leaves the
  inventory as it was.
\<close>

definition relaxed_moles :: "param \<Rightarrow> cells \<Rightarrow> string \<Rightarrow> bioreactor \<Rightarrow> error + quantity" where
  "relaxed_moles p c component br =
     rbind (getattr ''gas_percentages'' (gas_percentages br)) (\<lambda>percent.
     rbind (getitem percent component) (\<lambda>fraction.
     rbind (getitem solubility component) (\<lambda>sol.
     rbind (getattr ''kla'' (kla br)) (\<lambda>k.
     rbind (getitem (kla_ratio p) component) (\<lambda>ratio.
     rbind (getitem (mole br) component) (\<lambda>m.
     rbind (getitem (mass_transfer c) component) (\<lambda>uptake.
       (let C_star = fraction * pressure br * sol (temperature br);
            kLa = k * ratio;
            transfer_coeff = exp (- kLa * q_res p)
        in rbind (fdiv uptake kLa) (\<lambda>uptake_per_kLa.
             Inr (transfer_coeff * m +
                  (1 - transfer_coeff) * (C_star * working_volume br - uptake_per_kLa)))))))))))"

definition relax_component :: "param \<Rightarrow> cells \<Rightarrow> string \<Rightarrow> bioreactor \<Rightarrow> error + bioreactor" where
  "relax_component p c component br =
     rbind (relaxed_moles p c component br) (\<lambda>m'.
       Inr (br\<lparr>mole := setitem component m' (mole br)\<rparr>))"

definition fed_moles :: "param \<Rightarrow> actuation \<Rightarrow> cells \<Rightarrow> string \<Rightarrow> bioreactor \<Rightarrow> error + quantity" where
  "fed_moles p a c component br =
     rbind (getitem a component) (\<lambda>transfer_rate.
     rbind (getitem (mole br) component) (\<lambda>m.
     rbind (getitem (mass_transfer c) component) (\<lambda>uptake.
       Inr (m + (transfer_rate + uptake) * q_res p))))"

definition feed_component ::
  "param \<Rightarrow> actuation \<Rightarrow> cells \<Rightarrow> string \<Rightarrow> bioreactor \<Rightarrow> error + bioreactor" where
  "feed_component p a c component br =
     rbind (fed_moles p a c component br) (\<lambda>m'.
       Inr (br\<lparr>mole := setitem component m' (mole br)\<rparr>))"

definition update_component ::
  "param \<Rightarrow> actuation \<Rightarrow> cells \<Rightarrow> string \<Rightarrow> bioreactor \<Rightarrow> error + bioreactor" where
  "update_component p a c component br =
     (if exchanged p component then relax_component p c component br
      else feed_component p a c component br)"

fun update_moles ::
  "param \<Rightarrow> actuation \<Rightarrow> cells \<Rightarrow> string list \<Rightarrow> bioreactor \<Rightarrow> (error + unit) \<times> bioreactor" where
  "update_moles p a c [] br = (Inr (), br)"
| "update_moles p a c (component # cs) br =
     (case update_component p a c component br of
        Inl e \<Rightarrow> (Inl e, br)
      | Inr br' \<Rightarrow> update_moles p a c cs br')"

definition update_volume :: "param \<Rightarrow> actuation \<Rightarrow> bioreactor \<Rightarrow> (error + unit) \<times> bioreactor" where
  "update_volume p a br =
     (case getitem a ''liquid_volume'' of
        Inl e \<Rightarrow> (Inl e, br)
      | Inr lv \<Rightarrow> (Inr (), br\<lparr>working_volume := working_volume br + lv * q_res p\<rparr>))"

definition temperature_change :: "param \<Rightarrow> actuation \<Rightarrow> bioreactor \<Rightarrow> error + quantity" where
  "temperature_change p a br =
     rbind (getitem a ''heat'') (\<lambda>heat.
       (let heat_transfer =
              heat + (environment_temperature p - temperature br) * overall_heat_transfer_coeff br
        in fdiv (heat_transfer * q_res p) (working_volume br * volumetric_heat_capacity p)))"

definition update_temperature :: "param \<Rightarrow> actuation \<Rightarrow> bioreactor \<Rightarrow> (error + unit) \<times> bioreactor" where
  "update_temperature p a br =
     (case temperature_change p a br of
        Inl e \<Rightarrow> (Inl e, br)
      | Inr dT \<Rightarrow> (Inr (), br\<lparr>temperature := temperature br + dT\<rparr>))"

fun add_concentrations :: "bioreactor \<Rightarrow> string list \<Rightarrow> quantity dict \<Rightarrow> error + quantity dict" where
  "add_concentrations br [] environment = Inr environment"
| "add_concentrations br (component # cs) environment =
     rbind (getitem (mole br) component) (\<lambda>m.
     rbind (fdiv m (working_volume br)) (\<lambda>conc.
       add_concentrations br cs (setitem component conc environment)))"

definition build_environment :: "param \<Rightarrow> real \<Rightarrow> bioreactor \<Rightarrow> error + quantity dict" where
  "build_environment p cell_fraction br =
     rbind (fdiv (total_moles br) (working_volume br * (1 - cell_fraction))) (\<lambda>osmo.
     rbind (getattr ''mean_shear'' (mean_shear br)) (\<lambda>shear.
     rbind (getattr ''max_shear'' (max_shear br)) (\<lambda>mshear.
     rbind (pH p br) (\<lambda>ph.
       add_concentrations br (liquid_components p)
         [(''shear'', shear),
          (''max_shear'', mshear),
          (''volume'', working_volume br),
          (''mOsm'', osmo),
          (''pH'', ph),
          (''temperature'', temperature br),
          (''time'', current_time br)]))))"

text \<open>
  \<^verbatim>\<open>step\<close>. The message printed when the cell fraction exceeds 1 changes neither
  the reactor nor the result and is left out.
\<close>

definition step ::
  "param \<Rightarrow> actuation \<Rightarrow> cells \<Rightarrow> bioreactor \<Rightarrow> (error + quantity dict) \<times> bioreactor" where
  "step p a c br0 =
     (case check_and_update p a br0 of
        (Inl e, br1) \<Rightarrow> (Inl e, br1)
      | (Inr _, br1) \<Rightarrow>
     (case fdiv (total_cells c * cell_volume c / 1) (working_volume br1) of
        Inl e \<Rightarrow> (Inl e, br1)
      | Inr cell_fraction \<Rightarrow>
     (case update_moles p a c (liquid_components p) br1 of
        (Inl e, br2) \<Rightarrow> (Inl e, br2)
      | (Inr _, br2) \<Rightarrow>
     (case update_volume p a br2 of
        (Inl e, br3) \<Rightarrow> (Inl e, br3)
      | (Inr _, br3) \<Rightarrow>
     (case update_temperature p a br3 of
        (Inl e, br4) \<Rightarrow> (Inl e, br4)
      | (Inr _, br4) \<Rightarrow>
     (case build_environment p cell_fraction br4 of
        Inl e \<Rightarrow> (Inl e, br4)
      | Inr environment \<Rightarrow> (Inr environment, br4)))))))"

text \<open>
  The caller's loop: one \<open>step\<close> per pair of inputs, collecting the snapshots; an
  exception ends the run.
\<close>

fun run_steps ::
  "param \<Rightarrow> (actuation \<times> cells) list \<Rightarrow> bioreactor \<Rightarrow> (error + quantity dict) list \<times> bioreactor" where
  "run_steps p [] br = ([], br)"
| "run_steps p ((a, c) # rest) br =
     (case step p a c br of
        (Inl e, br') \<Rightarrow> ([Inl e], br')
      | (Inr environment, br') \<Rightarrow>
          (case run_steps p rest br' of (outs, br'') \<Rightarrow> (Inr environment # outs, br'')))"

section \<open>A reference scenario\<close>

text \<open>
  A small stirred tank used to exercise the definitions: a Rushton impeller of
  diameter 0.06 in a vessel of diameter 0.13, one litre of working volume at
  temperature 30, sparged with air at rate 1/2 and stirred at 3 revolutions per
  second, holding glucose and equal amounts of a cation and an anion, in millimole.
\<close>

definition ex_param :: param where
  "ex_param =
     \<lparr>liquid_components = [''dO2'', ''dCO2'', ''glucose'', ''Na'', ''Cl''],
      gas_components = [''O2'', ''CO2'', ''air''],
      kla_ratio = [(''dO2'', 1), (''dCO2'', 9 / 10)],
      resolution = 1,
      q_res = 1,
      positively_charged = [''Na''],
      negatively_charged = [''Cl''],
      viscosity = 1 / 1000,
      environment_temperature = 25,
      volumetric_heat_capacity = 4180,
      actual_cc_density = 1,
      gravity = 981 / 100\<rparr>"

definition ex_agitator :: agitator where
  "ex_agitator = agitator_with ''rushton'' 1 (6 / 100) (2 / 100) 5.5"

definition ex_closure :: kla_closure where
  "ex_closure =
     \<lparr>diam_ratio = 6 / 13,
      shape_A = 5.3 * exp (- 5.4 * (6 / 13)),
      shape_B = 0.47 * (6 / 13) powr 1.3,
      shape_C = 0.64 - 1.1 * (6 / 13),
      froude_coeff = (6 / 100) / 9.81,
      closure_CSA = pi * (13 / 100) ^ 2 / 4\<rparr>"

definition ex_reactor :: bioreactor where
  "ex_reactor =
     \<lparr>volume = 3,
      working_volume = 1,
      the_agitator = ex_agitator,
      CSA = (13 / 100) ^ 2 / 4 * pi,
      diameter = 13 / 100,
      current_time = 0,
      sparger_pore_size = 2 / 100000,
      kla_func_closure = ex_closure,
      old = [],
      pressure = (2 / 100) / 2 * 1 * (981 / 100) + 1,
      mole = [(''dO2'', 0), (''dCO2'', 0), (''glucose'', 5), (''Na'', 1 / 10), (''Cl'', 1 / 10)],
      conc_unit = 1 / 1000,
      sparger_height = 2 / 100,
      temperature = 30,
      overall_heat_transfer_coeff =
        50 * (2 * ((13 / 100) ^ 2 / 4 * pi) + 3 / ((13 / 100) ^ 2 / 4 * pi) * pi * (13 / 100)),
      kla = None,
      gas_percentages = None,
      mean_shear = None,
      max_shear = None\<rparr>"

definition ex_actuation :: actuation where
  "ex_actuation =
     [(''O2'', 0), (''CO2'', 0), (''air'', 1 / 2), (''gas_volume'', 1 / 2),
      (''liquid_volume'', 0), (''RPS'', 3), (''heat'', 0),
      (''glucose'', 0), (''Na'', 0), (''Cl'', 0)]"

text \<open>The same command with the stirrer slowed to 2 revolutions per second.\<close>

definition ex_actuation_slow :: actuation where
  "ex_actuation_slow = setitem ''RPS'' 2 ex_actuation"

text \<open>
  The mean shear of the reference geometry at a given stirrer speed, and the reactor
  as the first command leaves it, \<open>k\<close> being the transfer coefficient it caches.
\<close>

definition ex_shear :: "quantity \<Rightarrow> quantity" where
  "ex_shear rps = 4.2 * rps * (6 / 13) powr 0.3 * (6 / 100) / (2 / 100)"

definition ex_reactor_stirred :: "quantity \<Rightarrow> bioreactor" where
  "ex_reactor_stirred k =
     ex_reactor\<lparr>current_time := 1,
       old := ex_actuation,
       kla := Some k,
       gas_percentages := Some [(''dO2'', 21 / 100), (''dCO2'', 45 / 100000), (''dair'', 1)],
       mean_shear := Some (ex_shear 3),
       max_shear := Some (ex_shear 3 / 4.2 * 9.7)\<rparr>"

text \<open>The inventory and the reactor after the whole first step.\<close>

definition ex_moles :: "quantity \<Rightarrow> quantity dict" where
  "ex_moles k =
     [(''dO2'', (1 - exp (- k)) * (21 / 100 * (10981 / 10000) * (113 / 100) - 1 / 100 / k)),
      (''dCO2'', (1 - exp (- (k * 9 / 10))) * (45 / 100000 * (10981 / 10000) * (3009 / 100))),
      (''glucose'', 5), (''Na'', 1 / 10), (''Cl'', 1 / 10)]"

definition ex_reactor_stepped :: "quantity \<Rightarrow> bioreactor" where
  "ex_reactor_stepped k =
     (ex_reactor_stirred k)\<lparr>mole := ex_moles k,
       working_volume := 1,
       temperature := 30 + (25 - 30) * overall_heat_transfer_coeff ex_reactor / 4180\<rparr>"

text \<open>
  The reference reactor with its amounts in mole, started with 40 mole of the cation
  and nothing else: a large positive net charge and no dissolved carbon dioxide.
\<close>

definition ex_reactor_salty :: bioreactor where
  "ex_reactor_salty =
     ex_reactor\<lparr>mole :=
       [(''dO2'', 0), (''dCO2'', 0), (''glucose'', 0), (''Na'', 40), (''Cl'', 0)],
       conc_unit := 1\<rparr>"

text \<open>
  The reference impeller mounted twice on the shaft, and a gas flow at which the
  aeration number of the reference geometry at 3 revolutions per second is 1.
\<close>

definition ex_agitator_pair :: agitator where
  "ex_agitator_pair = agitator_with ''rushton'' 2 (6 / 100) (2 / 100) 5.5"

definition ex_cells :: cells where
  "ex_cells =
     \<lparr>total_cells = 1000000,
      cell_volume = 1 / 1000000000,
      mass_transfer =
        [(''dO2'', 1 / 100), (''dCO2'', 0), (''glucose'', 0), (''Na'', 0), (''Cl'', 0)]\<rparr>"

section \<open>Agitator construction\<close>

text \<open>
  C6. Constructing an agitator with impeller type \<open>rushton\<close> succeeds with power number
  5.5, with \<open>marine\<close> it succeeds with power number 2.2, and with any other impeller type
  it raises the error "impeller not recognized!" and yields no agitator.
\<close>

theorem agitator_init_power_number:
  "(\<exists>ag. agitator_init ''rushton'' n d w = Inr ag \<and> power_number ag = 5.5) \<and>
   (\<exists>ag. agitator_init ''marine'' n d w = Inr ag \<and> power_number ag = 2.2) \<and>
   (t \<noteq> ''rushton'' \<and> t \<noteq> ''marine'' \<longrightarrow>
      agitator_init t n d w = Inl (ValueError ''impeller not recognized!''))"
  by (simp add: agitator_init_def agitator_with_def)

theorem agitator_init_power_number_witness:
  "''paddle'' \<noteq> ''rushton'' \<and> ''paddle'' \<noteq> ''marine'' \<and>
   agitator_init ''paddle'' 1 6 2 = Inl (ValueError ''impeller not recognized!'') \<and>
   (\<exists>ag. agitator_init ''rushton'' 1 6 2 = Inr ag \<and> power_number ag = 5.5) \<and>
   (\<exists>ag. agitator_init ''marine'' 1 6 2 = Inr ag \<and> power_number ag = 2.2)"
  using agitator_init_power_number [of 1 6 2 "''paddle''"] by simp

section \<open>Basic facts about results, dictionaries and arithmetic\<close>

lemma rbind_Inr [simp]: "rbind (Inr v) f = f v"
  by (simp add: rbind_def)

lemma rbind_Inl [simp]: "rbind (Inl e) f = Inl e"
  by (simp add: rbind_def)

lemma rbind_eq_Inr: "rbind m f = Inr y \<longleftrightarrow> (\<exists>v. m = Inr v \<and> f v = Inr y)"
  by (cases m) simp_all

lemma getitem_eq_Inr: "getitem d k = Inr v \<longleftrightarrow> map_of d k = Some v"
  by (simp add: getitem_def split: option.splits)

lemma getitem_Some [simp]: "map_of d k = Some v \<Longrightarrow> getitem d k = Inr v"
  by (simp add: getitem_eq_Inr)

lemma getitem_None [simp]: "map_of d k = None \<Longrightarrow> getitem d k = Inl (KeyError k)"
  by (simp add: getitem_def)

lemma getattr_eq_Inr: "getattr name field = Inr v \<longleftrightarrow> field = Some v"
  by (simp add: getattr_def split: option.splits)

lemma getattr_Some [simp]: "getattr name (Some v) = Inr v"
  by (simp add: getattr_def)

lemma map_of_setitem: "map_of (setitem k v d) k' = (if k' = k then Some v else map_of d k')"
  by (simp add: setitem_def update_conv')

lemma dict_eq_iff: "dict_eq a b \<longleftrightarrow> map_of a = map_of b"
proof
  assume eq: "dict_eq a b"
  show "map_of a = map_of b"
  proof
    fix k
    show "map_of a k = map_of b k"
    proof (cases "k \<in> fst ` set a \<union> fst ` set b")
      case True
      with eq show ?thesis by (auto simp: dict_eq_def list_all_iff)
    next
      case False
      then have "map_of a k = None" and "map_of b k = None"
        by (simp_all add: map_of_eq_None_iff)
      then show ?thesis by simp
    qed
  qed
next
  assume "map_of a = map_of b"
  then show "dict_eq a b" by (simp add: dict_eq_def list_all_iff)
qed

lemma fdiv_eq_Inr: "fdiv x y = Inr q \<longleftrightarrow> y \<noteq> 0 \<and> q = x / y"
  by (auto simp: fdiv_def)

lemma fdiv_nonzero [simp]: "y \<noteq> 0 \<Longrightarrow> fdiv x y = Inr (x / y)"
  by (simp add: fdiv_def)

lemma fdiv_zero [simp]: "fdiv x 0 = Inl NotFinite"
  by (simp add: fdiv_def)

lemma fpow_pos [simp]: "0 < x \<Longrightarrow> fpow x y = Inr (x powr y)"
  by (simp add: fpow_def)

lemma fpow_fractional:
  assumes "y \<noteq> of_int \<lfloor>y\<rfloor>" and "0 < y"
  shows "fpow x y = Inr v \<longleftrightarrow> 0 \<le> x \<and> v = x powr y"
  using assms by (auto simp: fpow_def)

section \<open>The reference scenario is constructible\<close>

lemma ex_agitator_constructed: "agitator_init ''rushton'' 1 (6 / 100) (2 / 100) = Inr ex_agitator"
  by (simp add: agitator_init_def ex_agitator_def)

lemma ex_closure_created: "create_kla_function ex_agitator (13 / 100) = Inr ex_closure"
  by (simp add: create_kla_function_def ex_agitator_def agitator_with_def fpow_def ex_closure_def)



section \<open>The pH solver in exact arithmetic\<close>

lemma conversion_exact: "u \<noteq> 0 \<Longrightarrow> conversion (\<lambda>x. x) m u' u = m * u' / u"
  by (simp add: conversion_def)

lemma charge_terms_exact:
  assumes "wv \<noteq> 0"
  shows "\<exists>qs. charge_terms (\<lambda>x. x) charged u wv d = Inr qs \<and> (\<forall>q \<in> set qs. \<exists>m. q = Quant m u)"
proof (induction d)
  case Nil
  then show ?case by simp
next
  case (Cons x d)
  obtain species m where x: "x = (species, m)" by (cases x)
  from Cons obtain qs where
    "charge_terms (\<lambda>x. x) charged u wv d = Inr qs" "\<forall>q \<in> set qs. \<exists>m. q = Quant m u"
    by blast
  with assms x show ?case by (simp add: divide_rounded_def)
qed

lemma foldl_add_quant:
  assumes "\<forall>q \<in> set qs. \<exists>m. q = Quant m u"
  shows "\<exists>m'. foldl (add_number rnd) (Quant m u) qs = Quant m' u"
  using assms
proof (induction qs arbitrary: m)
  case Nil
  then show ?case by simp
next
  case (Cons q qs)
  then obtain m1 where "q = Quant m1 u" by auto
  then have "add_number rnd (Quant m u) q = Quant (rnd (m + rescale rnd q u)) u" by simp
  with Cons show ?case by simp
qed

lemma sum_numbers_shape:
  assumes "\<forall>q \<in> set qs. \<exists>m. q = Quant m u"
  shows "sum_numbers rnd qs = Plain 0 \<or> (\<exists>m. sum_numbers rnd qs = Quant m u)"
proof (cases qs)
  case Nil
  then show ?thesis by (simp add: sum_numbers_def)
next
  case (Cons q qs')
  with assms obtain m1 where q: "q = Quant m1 u" by auto
  have "\<forall>q \<in> set qs'. \<exists>m. q = Quant m u" using assms Cons by simp
  from foldl_add_quant [OF this] show ?thesis
    by (simp add: sum_numbers_def Cons q)
qed

lemma net_charge_shape:
  assumes "working_volume br \<noteq> 0"
  shows "\<exists>nc. net_charge p br = Inr nc \<and> (nc = Plain 0 \<or> (\<exists>m. nc = Quant m (conc_unit br)))"
proof -
  obtain ps where ps:
    "charge_terms (\<lambda>x. x) (positively_charged p) (conc_unit br) (working_volume br) (mole br) = Inr ps"
    "\<forall>q \<in> set ps. \<exists>m. q = Quant m (conc_unit br)"
    using charge_terms_exact [OF assms] by blast
  obtain ns where ns:
    "charge_terms (\<lambda>x. x) (negatively_charged p) (conc_unit br) (working_volume br) (mole br) = Inr ns"
    "\<forall>q \<in> set ns. \<exists>m. q = Quant m (conc_unit br)"
    using charge_terms_exact [OF assms] by blast
  have nc: "net_charge p br =
      Inr (sub_number (\<lambda>x. x) (sum_numbers (\<lambda>x. x) ps) (sum_numbers (\<lambda>x. x) ns))"
    by (simp add: net_charge_def net_charge_rounded_def ps ns)
  from sum_numbers_shape [OF ps(2), of "\<lambda>x. x"] sum_numbers_shape [OF ns(2), of "\<lambda>x. x"]
  have "sub_number (\<lambda>x. x) (sum_numbers (\<lambda>x. x) ps) (sum_numbers (\<lambda>x. x) ns) = Plain 0 \<or>
        (\<exists>m. sub_number (\<lambda>x. x) (sum_numbers (\<lambda>x. x) ps) (sum_numbers (\<lambda>x. x) ns) =
              Quant m (conc_unit br))"
    by (elim disjE exE) simp_all
  with nc show ?thesis by auto
qed

lemma root_exceeds_half_charge:
  fixes nc :: real
  assumes "0 < e"
  shows "\<bar>nc / 2\<bar> < sqrt ((nc / 2) ^ 2 + e)"
proof -
  have "(nc / 2) ^ 2 < (nc / 2) ^ 2 + e"
    using assms by linarith
  then have "sqrt ((nc / 2) ^ 2) < sqrt ((nc / 2) ^ 2 + e)"
    by (rule real_sqrt_less_mono)
  then show ?thesis
    by (simp only: real_sqrt_abs)
qed

text \<open>The solver on a state without charged species: the net charge is the plain 0.\<close>

lemma pH_value_plain:
  assumes nc: "net_charge p br = Inr (Plain 0)"
    and co2: "map_of (mole br) ''dCO2'' = Some co2"
    and wv: "0 < working_volume br"
    and nonneg: "0 \<le> co2"
    and u0: "0 < conc_unit br" and u1: "conc_unit br \<le> 1"
  shows "discriminant br (Plain 0) =
           Inr (Quant (10 powr (- 14) / conc_unit br +
                       10 powr (- 6.36) * 1.0017 * co2 / working_volume br) (conc_unit br))"
    and "10 powr (- 14) \<le>
           10 powr (- 14) / conc_unit br + 10 powr (- 6.36) * 1.0017 * co2 / working_volume br"
    and "log_argument (\<lambda>x. x) (Plain 0) r = Plain r"
    and "pH p br = Inr (- log 10 (sqrt (10 powr (- 14) / conc_unit br +
                       10 powr (- 6.36) * 1.0017 * co2 / working_volume br)))"
proof -
  let ?u = "conc_unit br"
  let ?t = "10 powr (- 6.36) * 1.0017 * co2 / working_volume br"
  let ?d = "10 powr (- 14) / ?u + ?t"
  have t0: "0 \<le> ?t" using wv nonneg by simp
  show d: "discriminant br (Plain 0) = Inr (Quant ?d ?u)"
    using co2 wv u0
    by (simp add: discriminant_def discriminant_rounded_def divide_rounded_def conversion_exact)
  have "(10::real) powr (- 14) * ?u \<le> 10 powr (- 14) * 1"
    using u1 by (intro mult_left_mono) simp_all
  then have "(10::real) powr (- 14) \<le> 10 powr (- 14) / ?u"
    using u0 by (simp add: field_simps)
  then show lo: "10 powr (- 14) \<le> ?d" using t0 by linarith
  show l: "log_argument (\<lambda>x. x) (Plain 0) r = Plain r"
    by (simp add: log_argument_def)
  have c: "(0::real) < 10 powr (- 14)" by simp
  have d0: "0 < ?d" using lo c by linarith
  then have s0: "0 < sqrt ?d" by simp
  show "pH p br = Inr (- log 10 (sqrt ?d))"
    using d0 s0 nc d
    by (simp add: pH_def pH_rounded_def net_charge_def discriminant_def math_sqrt_def
        math_log10_def log_argument_def)
qed

text \<open>The solver on a state with charged species: the net charge is a quantity in the
  unit of the concentrations, its square is in the square of that unit, and the water
  constant and the root are rescaled to these units before they are added.\<close>

lemma pH_value_quant:
  assumes nc: "net_charge p br = Inr (Quant N (conc_unit br))"
    and co2: "map_of (mole br) ''dCO2'' = Some co2"
    and wv: "0 < working_volume br"
    and nonneg: "0 \<le> co2"
    and u0: "0 < conc_unit br" and u1: "conc_unit br \<le> 1"
  shows "\<exists>D. discriminant br (Quant N (conc_unit br)) = Inr (Quant D ((conc_unit br) ^ 2)) \<and>
          10 powr (- 14) \<le> D \<and>
          magnitude (log_argument (\<lambda>x. x) (Quant N (conc_unit br)) (sqrt D)) =
            - N / 2 + sqrt D / conc_unit br \<and>
          0 < - N / 2 + sqrt D / conc_unit br \<and>
          pH p br = Inr (- log 10 (- N / 2 + sqrt D / conc_unit br))"
proof -
  let ?u = "conc_unit br"
  let ?c = "(10::real) powr (- 14)"
  let ?t = "10 powr (- 6.36) * 1.0017 * co2 / working_volume br"
  define D where "D = (N / 2) ^ 2 + ?c / ?u ^ 2 + ?t * ?u / ?u ^ 2"
  have u2: "0 < ?u ^ 2" using u0 by simp
  have u2le: "?u ^ 2 \<le> 1" using u0 u1 by (simp add: power_le_one)
  have t0: "0 \<le> ?t * ?u / ?u ^ 2" using wv nonneg u0 by simp
  have d: "discriminant br (Quant N ?u) = Inr (Quant D (?u ^ 2))"
    using co2 wv u0 unfolding D_def
    by (simp add: discriminant_def discriminant_rounded_def divide_rounded_def conversion_exact)
  have c0: "0 < ?c" by simp
  have "?c * ?u ^ 2 \<le> ?c * 1"
    using u2le by (intro mult_left_mono) simp_all
  then have cu: "?c \<le> ?c / ?u ^ 2"
    using u2 by (simp add: field_simps)
  have sq: "0 \<le> (N / 2) ^ 2" by simp
  have lo: "?c \<le> D" unfolding D_def using cu t0 sq by linarith
  have e0: "0 < ?c / ?u ^ 2 + ?t * ?u / ?u ^ 2" using cu c0 t0 by linarith
  have "\<bar>N / 2\<bar> < sqrt ((N / 2) ^ 2 + (?c / ?u ^ 2 + ?t * ?u / ?u ^ 2))"
    using e0 by (rule root_exceeds_half_charge)
  then have r: "\<bar>N / 2\<bar> < sqrt D" unfolding D_def by (simp only: add.assoc)
  then have s0: "0 \<le> sqrt D" by linarith
  have "sqrt D * ?u \<le> sqrt D * 1"
    using u1 s0 by (intro mult_left_mono) simp_all
  then have "sqrt D \<le> sqrt D / ?u"
    using u0 by (simp add: field_simps)
  with r have pos: "0 < - N / 2 + sqrt D / ?u" by linarith
  have D0: "\<not> D < 0" using lo c0 by linarith
  have l: "magnitude (log_argument (\<lambda>x. x) (Quant N ?u) (sqrt D)) = - N / 2 + sqrt D / ?u"
    using u0 by (simp add: log_argument_def conversion_exact)
  have ms: "math_sqrt D = Inr (sqrt D)"
    using D0 by (simp add: math_sqrt_def)
  have ml: "math_log10 (- N / 2 + sqrt D / ?u) = Inr (log 10 (- N / 2 + sqrt D / ?u))"
    using pos by (simp add: math_log10_def)
  have "pH p br = Inr (- log 10 (- N / 2 + sqrt D / ?u))"
    by (simp only: pH_def pH_rounded_def nc [unfolded net_charge_def]
        d [unfolded discriminant_def] rbind_def sum.case magnitude.simps ms l ml)
  with d lo l pos show ?thesis by blast
qed

lemma pH_returns:
  assumes "0 < working_volume br"
    and "map_of (mole br) ''dCO2'' = Some co2"
    and "0 \<le> co2"
    and "0 < conc_unit br"
    and "conc_unit br \<le> 1"
  shows "\<exists>ph. pH p br = Inr ph"
proof -
  from assms(1) have "working_volume br \<noteq> 0" by simp
  from net_charge_shape [OF this, of p] obtain nc where
    nc: "net_charge p br = Inr nc"
    and shape: "nc = Plain 0 \<or> (\<exists>m. nc = Quant m (conc_unit br))"
    by blast
  from shape show ?thesis
  proof
    assume p0: "nc = Plain 0"
    from pH_value_plain(4) [OF nc [unfolded p0] assms(2) assms(1) assms(3) assms(4) assms(5)]
    show ?thesis by blast
  next
    assume "\<exists>m. nc = Quant m (conc_unit br)"
    then obtain N where q: "nc = Quant N (conc_unit br)" by blast
    from pH_value_quant [OF nc [unfolded q] assms(2) assms(1) assms(3) assms(4) assms(5)]
    show ?thesis by blast
  qed
qed

lemma sqrt_inverse_power: "0 \<le> a \<Longrightarrow> sqrt (1 / a ^ 2) = 1 / a"
  by (simp add: real_sqrt_divide)

lemma water_constant: "(10::real) powr (- 14) = 1 / 10 ^ 14"
proof -
  have "(10::real) powr (- 14) = 1 / 10 powr 14"
    by (simp add: powr_minus_divide)
  also have "(10::real) powr 14 = 10 ^ 14"
    using powr_realpow [of "10::real" 14] by simp
  finally show ?thesis .
qed

lemma log10_inverse_power: "log 10 (1 / 10 ^ n) = - real n"
  by (simp add: log_divide log_nat_power)

lemma ex_net_charge: "net_charge ex_param ex_reactor = Inr (Quant 0 (1 / 1000))"
  by (simp add: net_charge_def net_charge_rounded_def ex_reactor_def ex_param_def
      divide_rounded_def sum_numbers_def conversion_def)

lemma ex_discriminant:
  "discriminant ex_reactor (Quant 0 (1 / 1000)) = Inr (Quant (1 / 100000000) ((1 / 1000) ^ 2))"
  by (simp add: discriminant_def discriminant_rounded_def ex_reactor_def getitem_def
      divide_rounded_def conversion_def water_constant power2_eq_square)

lemma ex_log_argument:
  "log_argument (\<lambda>x. x) (Quant 0 (1 / 1000)) (1 / 10000) = Quant (1 / 10) (1 / 1000)"
  by (simp add: log_argument_def conversion_def)

text \<open>
  C4. The reference reactor holds its amounts in millimole, the unit of the
  constructor's own entries, with a zero net charge (Na and Cl balance) and no dCO2 in
  one litre. The claim gives pH 7; the code returns 1: the net charge is a quantity in
  mmol/(L*M), so the square root of \<open>10\<^sup>-\<^sup>1\<^sup>4\<close> rescaled to the squared unit is \<open>10\<^sup>-\<^sup>4\<close>, which
  is added as a plain number to a quantity in mmol/(L*M) and rescaled by 1000 once
  more, and \<^verbatim>\<open>math.log10\<close> reads the magnitude \<open>10\<^sup>-\<^sup>1\<close>. With the same amounts in
  mole the solver returns 7.
\<close>

theorem pH_pure_water_millimole:
  "pH ex_param ex_reactor = Inr 1 \<and> pH ex_param (ex_reactor\<lparr>conc_unit := 1\<rparr>) = Inr 7"
proof -
  have s: "sqrt (1 / 100000000 :: real) = 1 / 10000"
    using sqrt_inverse_power [of "10 ^ 4 :: real"] by simp
  have l: "log 10 (1 / 10 :: real) = - 1"
    using log10_inverse_power [of 1] by simp
  have a: "pH ex_param ex_reactor = Inr 1"
    by (simp add: pH_def pH_rounded_def ex_net_charge [unfolded net_charge_def]
        ex_discriminant [unfolded discriminant_def] math_sqrt_def math_log10_def s
        ex_log_argument l)
  have n: "net_charge ex_param (ex_reactor\<lparr>conc_unit := 1\<rparr>) = Inr (Quant 0 1)"
    by (simp add: net_charge_def net_charge_rounded_def ex_reactor_def ex_param_def
        divide_rounded_def sum_numbers_def conversion_def)
  have d: "discriminant (ex_reactor\<lparr>conc_unit := 1\<rparr>) (Quant 0 1) = Inr (Quant (1 / 100000000000000) 1)"
    by (simp add: discriminant_def discriminant_rounded_def ex_reactor_def getitem_def
        divide_rounded_def conversion_def water_constant)
  have s7: "sqrt (1 / 100000000000000 :: real) = 1 / 10000000"
    using sqrt_inverse_power [of "10 ^ 7 :: real"] by simp
  have l7: "log 10 (1 / 10000000 :: real) = - 7"
    using log10_inverse_power [of 7] by simp
  have la: "log_argument (\<lambda>x. x) (Quant 0 1) (1 / 10000000) = Quant (1 / 10000000) 1"
    by (simp add: log_argument_def conversion_def)
  have b: "pH ex_param (ex_reactor\<lparr>conc_unit := 1\<rparr>) = Inr 7"
    by (simp only: pH_def pH_rounded_def n [unfolded net_charge_def]
        d [unfolded discriminant_def] rbind_def sum.case magnitude.simps)
       (simp add: math_sqrt_def math_log10_def s7 la l7)
  from a b show ?thesis by simp
qed

text \<open>
  C10, as the code has it. In exact arithmetic, in every reactor state with a positive
  working volume and a non-negative dCO2 inventory, whose concentrations are in a unit
  of at most one mole per litre (millimole or mole amounts in litres), the pH
  computation raises no error: the net charge is defined, the argument of the square
  root is at least \<open>10\<^sup>-\<^sup>1\<^sup>4\<close>, the argument of the logarithm is strictly positive, and
  \<open>pH\<close> returns the negated logarithm of that argument. (In binary64 arithmetic the
  argument of the logarithm can round to zero; see the last section.)
\<close>

theorem pH_well_defined:
  assumes "0 < working_volume br"
    and "map_of (mole br) ''dCO2'' = Some co2"
    and "0 \<le> co2"
    and "0 < conc_unit br"
    and "conc_unit br \<le> 1"
  shows "\<exists>nc disc. net_charge p br = Inr nc \<and> discriminant br nc = Inr disc \<and>
           10 powr (- 14) \<le> magnitude disc \<and>
           0 < magnitude (log_argument (\<lambda>x. x) nc (sqrt (magnitude disc))) \<and>
           pH p br = Inr (- log 10 (magnitude (log_argument (\<lambda>x. x) nc (sqrt (magnitude disc)))))"
proof -
  from assms(1) have "working_volume br \<noteq> 0" by simp
  from net_charge_shape [OF this, of p] obtain nc where
    nc: "net_charge p br = Inr nc"
    and shape: "nc = Plain 0 \<or> (\<exists>m. nc = Quant m (conc_unit br))"
    by blast
  from shape show ?thesis
  proof
    assume p0: "nc = Plain 0"
    let ?D = "10 powr (- 14) / conc_unit br + 10 powr (- 6.36) * 1.0017 * co2 / working_volume br"
    note v = pH_value_plain [OF nc [unfolded p0] assms(2) assms(1) assms(3) assms(4) assms(5)]
    have lo: "10 powr (- 14) \<le> ?D" by (rule v(2))
    have "(0::real) < 10 powr (- 14)" by simp
    with lo have "0 < ?D" by linarith
    then have s0: "0 < sqrt ?D" by simp
    have l: "magnitude (log_argument (\<lambda>x. x) (Plain 0) (sqrt ?D)) = sqrt ?D"
      by (simp add: log_argument_def)
    have "net_charge p br = Inr (Plain 0) \<and>
          discriminant br (Plain 0) = Inr (Quant ?D (conc_unit br)) \<and>
          10 powr (- 14) \<le> magnitude (Quant ?D (conc_unit br)) \<and>
          0 < magnitude (log_argument (\<lambda>x. x) (Plain 0) (sqrt (magnitude (Quant ?D (conc_unit br))))) \<and>
          pH p br = Inr (- log 10 (magnitude (log_argument (\<lambda>x. x) (Plain 0)
                      (sqrt (magnitude (Quant ?D (conc_unit br)))))))"
      unfolding magnitude.simps l using nc [unfolded p0] v(1) lo s0 v(4) by blast
    then show ?thesis by blast
  next
    assume "\<exists>m. nc = Quant m (conc_unit br)"
    then obtain N where q: "nc = Quant N (conc_unit br)" by blast
    from pH_value_quant [OF nc [unfolded q] assms(2) assms(1) assms(3) assms(4) assms(5)]
    obtain D where
      d: "discriminant br (Quant N (conc_unit br)) = Inr (Quant D ((conc_unit br) ^ 2))"
      and lo: "10 powr (- 14) \<le> D"
      and l: "magnitude (log_argument (\<lambda>x. x) (Quant N (conc_unit br)) (sqrt D)) =
                - N / 2 + sqrt D / conc_unit br"
      and pos: "0 < - N / 2 + sqrt D / conc_unit br"
      and v: "pH p br = Inr (- log 10 (- N / 2 + sqrt D / conc_unit br))"
      by blast
    have "net_charge p br = Inr (Quant N (conc_unit br)) \<and>
          discriminant br (Quant N (conc_unit br)) = Inr (Quant D ((conc_unit br) ^ 2)) \<and>
          10 powr (- 14) \<le> magnitude (Quant D ((conc_unit br) ^ 2)) \<and>
          0 < magnitude (log_argument (\<lambda>x. x) (Quant N (conc_unit br))
                 (sqrt (magnitude (Quant D ((conc_unit br) ^ 2))))) \<and>
          pH p br = Inr (- log 10 (magnitude (log_argument (\<lambda>x. x) (Quant N (conc_unit br))
                      (sqrt (magnitude (Quant D ((conc_unit br) ^ 2)))))))"
      unfolding magnitude.simps l using nc [unfolded q] d lo pos v by blast
    then show ?thesis by blast
  qed
qed

theorem pH_well_defined_witness:
  "0 < working_volume (ex_reactor\<lparr>mole := [(''dCO2'', 1 / 2), (''Na'', 1 / 5), (''Cl'', 1 / 10)]\<rparr>) \<and>
   map_of (mole (ex_reactor\<lparr>mole := [(''dCO2'', 1 / 2), (''Na'', 1 / 5), (''Cl'', 1 / 10)]\<rparr>))
     ''dCO2'' = Some (1 / 2) \<and>
   (0::real) \<le> 1 / 2 \<and>
   0 < conc_unit (ex_reactor\<lparr>mole := [(''dCO2'', 1 / 2), (''Na'', 1 / 5), (''Cl'', 1 / 10)]\<rparr>) \<and>
   conc_unit (ex_reactor\<lparr>mole := [(''dCO2'', 1 / 2), (''Na'', 1 / 5), (''Cl'', 1 / 10)]\<rparr>) \<le> 1 \<and>
   (\<exists>nc disc.
      net_charge ex_param (ex_reactor\<lparr>mole := [(''dCO2'', 1 / 2), (''Na'', 1 / 5), (''Cl'', 1 / 10)]\<rparr>)
        = Inr nc \<and>
      discriminant (ex_reactor\<lparr>mole := [(''dCO2'', 1 / 2), (''Na'', 1 / 5), (''Cl'', 1 / 10)]\<rparr>) nc
        = Inr disc \<and>
      10 powr (- 14) \<le> magnitude disc \<and>
      0 < magnitude (log_argument (\<lambda>x. x) nc (sqrt (magnitude disc))) \<and>
      pH ex_param (ex_reactor\<lparr>mole := [(''dCO2'', 1 / 2), (''Na'', 1 / 5), (''Cl'', 1 / 10)]\<rparr>)
        = Inr (- log 10 (magnitude (log_argument (\<lambda>x. x) nc (sqrt (magnitude disc))))))"
proof -
  let ?br = "ex_reactor\<lparr>mole := [(''dCO2'', 1 / 2), (''Na'', 1 / 5), (''Cl'', 1 / 10)]\<rparr>"
  have w: "0 < working_volume ?br" by (simp add: ex_reactor_def)
  have m: "map_of (mole ?br) ''dCO2'' = Some (1 / 2)" by simp
  have n: "(0::real) \<le> 1 / 2" by simp
  have u0: "0 < conc_unit ?br" by (simp add: ex_reactor_def)
  have u1: "conc_unit ?br \<le> 1" by (simp add: ex_reactor_def)
  from pH_well_defined [OF w m n u0 u1, of ex_param] w m n u0 u1
  show ?thesis by blast
qed

section \<open>Time\<close>

lemma check_and_update_time:
  "current_time (snd (check_and_update p a br)) = current_time br + resolution p"
  by (simp add: check_and_update_def recompute_def update_shear_def Let_def
      split: sum.splits bool.splits)

lemma update_component_time:
  "update_component p a c x br = Inr br' \<Longrightarrow> current_time br' = current_time br"
  by (auto simp: update_component_def relax_component_def feed_component_def rbind_eq_Inr
      split: if_splits)

lemma update_moles_time:
  "current_time (snd (update_moles p a c xs br)) = current_time br"
  by (induction xs arbitrary: br) (auto split: sum.splits dest: update_component_time)

lemma step_time_aux:
  "current_time (snd (step p a c br)) = current_time (snd (check_and_update p a br))"
proof -
  obtain r1 br1 where c: "check_and_update p a br = (r1, br1)" by (cases "check_and_update p a br")
  obtain r2 br2 where m: "update_moles p a c (liquid_components p) br1 = (r2, br2)"
    by (cases "update_moles p a c (liquid_components p) br1")
  have t2: "current_time br2 = current_time br1"
    using update_moles_time [of p a c "liquid_components p" br1] m by simp
  show ?thesis
    using c m t2
    by (simp add: step_def update_volume_def update_temperature_def
        split: sum.splits prod.splits)
qed

text \<open>
  C8. Every call of \<open>step\<close>, whatever the actuation command and the cell state, whether
  the cached values are reused or recomputed and whether the call returns or raises,
  leaves \<open>current_time\<close> increased by exactly the resolution. After a run the time is
  the start time plus the resolution times the number of calls made, and with a
  positive resolution each call strictly increases it.
\<close>

theorem step_advances_time:
  "current_time (snd (step p a c br)) = current_time br + resolution p \<and>
   current_time (snd (run_steps p inputs br)) =
     current_time br + real (length (fst (run_steps p inputs br))) * resolution p \<and>
   (0 < resolution p \<longrightarrow> current_time br < current_time (snd (step p a c br)))"
proof -
  have one: "\<And>a c br. current_time (snd (step p a c br)) = current_time br + resolution p"
    by (simp add: step_time_aux check_and_update_time)
  have many: "current_time (snd (run_steps p inputs br)) =
     current_time br + real (length (fst (run_steps p inputs br))) * resolution p"
  proof (induction inputs arbitrary: br)
    case Nil
    then show ?case by simp
  next
    case (Cons x inputs)
    obtain a c where x: "x = (a, c)" by (cases x)
    obtain r br' where s: "step p a c br = (r, br')" by (cases "step p a c br")
    have t: "current_time br' = current_time br + resolution p"
      using one [of a c br] s by simp
    show ?case
    proof (cases r)
      case (Inl e)
      with x s t show ?thesis by simp
    next
      case (Inr env)
      obtain outs br'' where r: "run_steps p inputs br' = (outs, br'')"
        by (cases "run_steps p inputs br'")
      from Cons.IH [of br'] r
      have "current_time br'' = current_time br' + real (length outs) * resolution p" by simp
      with x s t Inr r show ?thesis by (simp add: algebra_simps)
    qed
  qed
  show ?thesis using one [of a c br] many by simp
qed

theorem step_advances_time_witness:
  "0 < resolution ex_param \<and>
   current_time (snd (step ex_param ex_actuation ex_cells ex_reactor)) = 1 \<and>
   current_time ex_reactor < current_time (snd (step ex_param ex_actuation ex_cells ex_reactor))"
  using step_advances_time [of ex_param ex_actuation ex_cells ex_reactor "[]"]
  by (simp add: ex_param_def ex_reactor_def)

section \<open>The gas-transfer correlation\<close>

lemma create_kla_function_eq_Inr:
  "create_kla_function ag diam = Inr k \<longleftrightarrow>
     diam \<noteq> 0 \<and> 0 \<le> ag_diameter ag / diam \<and>
     k = \<lparr>diam_ratio = ag_diameter ag / diam,
          shape_A = 5.3 * exp (- 5.4 * (ag_diameter ag / diam)),
          shape_B = 0.47 * (ag_diameter ag / diam) powr 1.3,
          shape_C = 0.64 - 1.1 * (ag_diameter ag / diam),
          froude_coeff = ag_diameter ag / 9.81,
          closure_CSA = pi * diam ^ 2 / 4\<rparr>"
  by (auto simp: create_kla_function_def rbind_eq_Inr fdiv_eq_Inr fpow_fractional)

lemma kla_func_eq_Inr:
  "kla_func p k ag RPS gas_flow wv = Inr (v, u) \<longleftrightarrow>
     (\<exists>lower upper.
        lower_gassed_power p k ag RPS gas_flow = Inr lower \<and>
        upper_gassed_power k ag RPS gas_flow = Inr upper \<and>
        closure_CSA k \<noteq> 0 \<and> wv \<noteq> 0 \<and>
        0 \<le> (lower + upper) / wv \<and> 0 \<le> gas_flow / closure_CSA k \<and>
        u = ''1/min'' \<and>
        v = 1080 * ((lower + upper) / wv) powr 0.39 * (gas_flow / closure_CSA k) powr 0.79)"
  by (auto simp: kla_func_def superficial_velocity_def rbind_eq_Inr fdiv_eq_Inr fpow_fractional)

lemma fpow_fractional_cases:
  assumes "y \<noteq> of_int \<lfloor>y\<rfloor>" and "0 < y"
  shows "fpow x y = (if 0 \<le> x then Inr (x powr y) else Inl NotFinite)"
  using assms by (auto simp: fpow_def)

lemma bounded_product:
  fixes b f t :: real
  assumes "b \<le> 47 / 100" "0 < f" "f \<le> 1" "0 \<le> t" "t < 1"
  shows "b * f * t \<le> 47 / 100"
proof (cases "0 \<le> b")
  case True
  have "f * t \<le> 1 * 1" using assms by (intro mult_mono) simp_all
  then have "b * (f * t) \<le> b * 1" using True by (intro mult_left_mono) simp_all
  with assms(1) show ?thesis by (simp add: mult.assoc)
next
  case False
  have "0 \<le> f * t" using assms by simp
  then have "b * (f * t) \<le> 0" using False by (simp add: mult_nonpos_nonneg)
  then show ?thesis by (simp add: mult.assoc)
qed

lemma single_impeller_kla_positive:
  assumes k: "create_kla_function ag diam = Inr k"
    and one: "number ag = 1"
    and d: "0 < ag_diameter ag" and D: "0 < diam"
    and ratio: "11 * ag_diameter ag \<le> 6.4 * diam"
    and rps: "0 < RPS"
    and fr: "ag_diameter ag * RPS ^ 2 \<le> 9.81"
    and visc: "0 \<le> viscosity p"
    and gas: "0 < gas_flow"
    and coeff: "0 < ungassed_power_coeff ag"
    and wv: "0 < wv"
  shows "\<exists>v. kla_func p k ag RPS gas_flow wv = Inr (v, ''1/min'') \<and> 0 < v"
proof -
  let ?r = "ag_diameter ag / diam"
  from k have kA: "shape_A k = 5.3 * exp (- 5.4 * ?r)"
    and kB: "shape_B k = 0.47 * ?r powr 1.3"
    and kC: "shape_C k = 0.64 - 1.1 * ?r"
    and kF: "froude_coeff k = ag_diameter ag / 9.81"
    and kS: "closure_CSA k = pi * diam ^ 2 / 4"
    by (simp_all add: create_kla_function_eq_Inr)
  have r0: "0 < ?r" using d D by simp
  have r1: "?r \<le> 1" using ratio d D by (simp add: field_simps)
  have C0: "0 \<le> shape_C k" using ratio D by (simp add: kC field_simps)
  have A0: "0 < shape_A k" by (simp add: kA)
  have "?r powr 1.3 \<le> 1" using r0 r1 by (intro powr_le1) simp_all
  then have B1: "shape_B k \<le> 47 / 100" by (simp add: kB)
  let ?aer = "gas_flow / (RPS * ag_diameter ag ^ 3)"
  have den: "RPS * ag_diameter ag ^ 3 \<noteq> 0" using rps d by simp
  have aer: "aeration_number ag RPS gas_flow = Inr ?aer"
    using den by (simp add: aeration_number_def)
  have aer0: "0 < ?aer" using gas rps d by simp
  let ?fr = "froude_number k RPS"
  have fr0: "0 < ?fr" using d rps by (simp add: froude_number_def kF)
  have fr1: "?fr \<le> 1" using fr by (simp add: froude_number_def kF field_simps)
  have f0: "0 < ?fr powr 0.25" using fr0 by simp
  have f1: "?fr powr 0.25 \<le> 1" using fr0 fr1 by (intro powr_le1) simp_all
  let ?t = "tanh (shape_C k * ?aer)"
  have "0 \<le> shape_C k * ?aer" using C0 aer0 by (intro mult_nonneg_nonneg) simp_all
  then have t0: "0 \<le> ?t" by (simp only: tanh_real_nonneg_iff)
  have t1: "?t < 1" by (rule tanh_real_lt_1)
  let ?b = "shape_B k - shape_A k * viscosity p / 1"
  have "0 \<le> shape_A k * viscosity p" using A0 visc by simp
  then have b1: "?b \<le> 47 / 100" using B1 by simp
  have X: "?b * ?fr powr 0.25 * ?t \<le> 47 / 100"
    by (rule bounded_product [OF b1 f0 f1 t0 t1])
  let ?up = "ungassed_power ag RPS"
  have up0: "0 < ?up" using rps coeff by (simp add: ungassed_power_def)
  let ?lower = "?up * (1 - ?b * ?fr powr 0.25 * ?t)"
  have lower: "lower_gassed_power p k ag RPS gas_flow = Inr ?lower"
    using fr0 by (simp add: lower_gassed_power_def aer)
  have lower0: "0 < ?lower" using up0 X by (intro mult_pos_pos) simp_all
  have upper: "upper_gassed_power k ag RPS gas_flow = Inr 0"
    using aer0 by (simp add: upper_gassed_power_def aer one)
  have csa0: "0 < closure_CSA k" using D by (simp add: kS)
  let ?v = "1080 * ((?lower + 0) / wv) powr 0.39 * (gas_flow / closure_CSA k) powr 0.79"
  have q0: "0 < (?lower + 0) / wv" using lower0 wv by simp
  have s0: "0 < gas_flow / closure_CSA k" using gas csa0 by simp
  have "kla_func p k ag RPS gas_flow wv = Inr (?v, ''1/min'')"
    unfolding kla_func_eq_Inr using lower upper csa0 wv q0 s0
    by (intro exI [of _ ?lower] exI [of _ 0]) simp
  moreover have "0 < ?v"
  proof -
    have "0 < ((?lower + 0) / wv) powr 0.39" using q0 by (simp only: powr_gt_zero)
    moreover have "0 < (gas_flow / closure_CSA k) powr 0.79"
      using s0 by (simp only: powr_gt_zero)
    ultimately show ?thesis by (intro mult_pos_pos) simp_all
  qed
  ultimately show ?thesis by blast
qed

lemma ex_kla_positive:
  "\<exists>v. kla_func ex_param ex_closure ex_agitator 3 (1 / 2) 1 = Inr (v, ''1/min'') \<and> 0 < v"
  by (rule single_impeller_kla_positive [OF ex_closure_created])
    (simp_all add: ex_agitator_def agitator_with_def ex_param_def)

lemma lower_gassed_power_eq_Inr:
  "lower_gassed_power p k ag RPS gas_flow = Inr l \<longleftrightarrow>
     RPS * ag_diameter ag ^ 3 \<noteq> 0 \<and> 0 \<le> froude_number k RPS \<and>
     l = ungassed_power ag RPS *
           (1 - (shape_B k - shape_A k * viscosity p / 1) * froude_number k RPS powr 0.25 *
                tanh (shape_C k * (gas_flow / (RPS * ag_diameter ag ^ 3))))"
  by (auto simp: lower_gassed_power_def aeration_number_def rbind_eq_Inr fdiv_eq_Inr
      fpow_fractional)

lemma upper_gassed_power_eq_Inr:
  "upper_gassed_power k ag RPS gas_flow = Inr up \<longleftrightarrow>
     RPS * ag_diameter ag ^ 3 \<noteq> 0 \<and>
     (\<exists>aer_pow.
        fpow (gas_flow / (RPS * ag_diameter ag ^ 3)) (shape_C k + 0.04 * froude_number k RPS) =
          Inr aer_pow \<and>
        up = of_int (number ag - 1) * ungassed_power ag RPS *
               (1 - (shape_A k + shape_B k * froude_number k RPS) * aer_pow))"
  by (auto simp: upper_gassed_power_def aeration_number_def rbind_eq_Inr fdiv_eq_Inr)

lemma kla_func_returns_iff:
  "kla_func p k ag RPS gas_flow wv = Inr (v, u) \<longleftrightarrow>
     RPS * ag_diameter ag ^ 3 \<noteq> 0 \<and> 0 \<le> froude_number k RPS \<and>
     closure_CSA k \<noteq> 0 \<and> wv \<noteq> 0 \<and> 0 \<le> gas_flow / closure_CSA k \<and>
     (\<exists>aer_pow.
        fpow (gas_flow / (RPS * ag_diameter ag ^ 3)) (shape_C k + 0.04 * froude_number k RPS) =
          Inr aer_pow \<and>
        0 \<le> (ungassed_power ag RPS *
               (1 - (shape_B k - shape_A k * viscosity p / 1) * froude_number k RPS powr 0.25 *
                    tanh (shape_C k * (gas_flow / (RPS * ag_diameter ag ^ 3)))) +
              of_int (number ag - 1) * ungassed_power ag RPS *
               (1 - (shape_A k + shape_B k * froude_number k RPS) * aer_pow)) / wv \<and>
        u = ''1/min'' \<and>
        v = 1080 *
            ((ungassed_power ag RPS *
               (1 - (shape_B k - shape_A k * viscosity p / 1) * froude_number k RPS powr 0.25 *
                    tanh (shape_C k * (gas_flow / (RPS * ag_diameter ag ^ 3)))) +
              of_int (number ag - 1) * ungassed_power ag RPS *
               (1 - (shape_A k + shape_B k * froude_number k RPS) * aer_pow)) / wv) powr 0.39 *
            (gas_flow / closure_CSA k) powr 0.79)"
  unfolding kla_func_eq_Inr lower_gassed_power_eq_Inr upper_gassed_power_eq_Inr
  by (rule iffI; (elim exE conjE)?; (intro conjI exI)?; (assumption | simp)?) blast+

lemma kla_func_positive_inputs:
  assumes k: "create_kla_function ag diam = Inr k"
    and rps: "0 < RPS" and gas: "0 < gas_flow" and d: "0 < ag_diameter ag" and wv: "wv \<noteq> 0"
  shows "kla_func p k ag RPS gas_flow wv =
     (if 0 \<le> (RPS ^ 3 * ungassed_power_coeff ag *
                (1 - (shape_B k - shape_A k * viscosity p / 1) *
                     (ag_diameter ag / 9.81 * RPS ^ 2) powr 0.25 *
                     tanh (shape_C k * (gas_flow / (RPS * ag_diameter ag ^ 3)))) +
              of_int (number ag - 1) * (RPS ^ 3 * ungassed_power_coeff ag) *
                (1 - (shape_A k + shape_B k * (ag_diameter ag / 9.81 * RPS ^ 2)) *
                     (gas_flow / (RPS * ag_diameter ag ^ 3)) powr
                       (shape_C k + 0.04 * (ag_diameter ag / 9.81 * RPS ^ 2)))) / wv
      then Inr (1080 *
                ((RPS ^ 3 * ungassed_power_coeff ag *
                    (1 - (shape_B k - shape_A k * viscosity p / 1) *
                         (ag_diameter ag / 9.81 * RPS ^ 2) powr 0.25 *
                         tanh (shape_C k * (gas_flow / (RPS * ag_diameter ag ^ 3)))) +
                  of_int (number ag - 1) * (RPS ^ 3 * ungassed_power_coeff ag) *
                    (1 - (shape_A k + shape_B k * (ag_diameter ag / 9.81 * RPS ^ 2)) *
                         (gas_flow / (RPS * ag_diameter ag ^ 3)) powr
                           (shape_C k + 0.04 * (ag_diameter ag / 9.81 * RPS ^ 2)))) / wv) powr 0.39 *
                (gas_flow / (pi * diam ^ 2 / 4)) powr 0.79, ''1/min'')
      else Inl NotFinite)"
proof -
  from k have kF: "froude_coeff k = ag_diameter ag / 9.81"
    and kS: "closure_CSA k = pi * diam ^ 2 / 4"
    and D: "diam \<noteq> 0"
    by (simp_all add: create_kla_function_eq_Inr)
  let ?fr = "ag_diameter ag / 9.81 * RPS ^ 2"
  let ?aer = "gas_flow / (RPS * ag_diameter ag ^ 3)"
  let ?lower = "RPS ^ 3 * ungassed_power_coeff ag *
                (1 - (shape_B k - shape_A k * viscosity p / 1) * ?fr powr 0.25 *
                     tanh (shape_C k * ?aer))"
  let ?upper = "of_int (number ag - 1) * (RPS ^ 3 * ungassed_power_coeff ag) *
                (1 - (shape_A k + shape_B k * ?fr) * ?aer powr (shape_C k + 0.04 * ?fr))"
  have fr: "froude_number k RPS = ?fr" by (simp add: froude_number_def kF)
  have fr0: "0 < ?fr" using d rps by simp
  have den: "RPS * ag_diameter ag ^ 3 \<noteq> 0" using rps d by simp
  have aer: "aeration_number ag RPS gas_flow = Inr ?aer"
    using den by (simp add: aeration_number_def)
  have aer0: "0 < ?aer" using gas rps d by simp
  have f1: "fpow ?fr 0.25 = Inr (?fr powr 0.25)" using fr0 by (rule fpow_pos)
  have f2: "fpow ?aer (shape_C k + 0.04 * ?fr) = Inr (?aer powr (shape_C k + 0.04 * ?fr))"
    using aer0 by (rule fpow_pos)
  have lower: "lower_gassed_power p k ag RPS gas_flow = Inr ?lower"
    unfolding lower_gassed_power_def aer fr rbind_Inr f1 ungassed_power_def ..
  have upper: "upper_gassed_power k ag RPS gas_flow = Inr ?upper"
    unfolding upper_gassed_power_def aer fr rbind_Inr f2 ungassed_power_def ..
  have csa: "pi * diam ^ 2 / 4 \<noteq> 0" using D by simp
  have sv: "superficial_velocity k gas_flow = Inr (gas_flow / (pi * diam ^ 2 / 4))"
    unfolding superficial_velocity_def kS using csa by (rule fdiv_nonzero)
  have sv0: "0 < gas_flow / (pi * diam ^ 2 / 4)"
  proof -
    have "0 < diam ^ 2" using D by simp
    then have "0 < pi * diam ^ 2 / 4" by simp
    with gas show ?thesis by (rule divide_pos_pos)
  qed
  have f4: "fpow (gas_flow / (pi * diam ^ 2 / 4)) 0.79 = Inr ((gas_flow / (pi * diam ^ 2 / 4)) powr 0.79)"
    using sv0 by (rule fpow_pos)
  have q: "fdiv (?lower + ?upper) wv = Inr ((?lower + ?upper) / wv)"
    using wv by (rule fdiv_nonzero)
  have f3: "fpow ((?lower + ?upper) / wv) 0.39 =
      (if 0 \<le> (?lower + ?upper) / wv then Inr (((?lower + ?upper) / wv) powr 0.39)
       else Inl NotFinite)"
    by (rule fpow_fractional_cases) simp_all
  show ?thesis
    unfolding kla_func_def lower upper sv rbind_Inr q f3
    by (simp only: f4 rbind_Inr rbind_Inl if_distrib [of "\<lambda>m. rbind m f" for f] cong: if_cong)
qed

text \<open>
  C2. For a reactor geometry with impeller/vessel diameter ratio \<open>r\<close> the closure holds
  the shape constants \<open>A = 5.3 e\<^sup>-\<^sup>5\<^sup>.\<^sup>4\<^sup>r\<close>, \<open>B = 0.47 r\<^sup>1\<^sup>.\<^sup>3\<close> and \<open>C = 0.64 - 1.1 r\<close>. For
  every rotational speed, gas flow and working volume, the coefficient the closure
  returns is, in the unit 1/min, 1080 times the power \<open>0.39\<close> of the summed lower and
  upper gassed power per working volume times the power \<open>0.79\<close> of the gas flow per
  vessel cross-section, where the lower gassed power is the ungassed power
  \<open>RPS\<^sup>3 \<times> coefficient\<close> times \<open>1 - (B - A \<times> viscosity) \<times> Fr\<^sup>0\<^sup>.\<^sup>2\<^sup>5 \<times> tanh (C \<times> Ae)\<close> and the
  upper gassed power is the ungassed power of the remaining impellers times
  \<open>1 - (A + B \<times> Fr) \<times> Ae\<^sup>C\<^sup>+\<^sup>0\<^sup>.\<^sup>0\<^sup>4\<^sup>F\<^sup>r\<close>, with the Froude number \<open>Fr = d / 9.81 \<times> RPS\<^sup>2\<close> and the
  aeration number \<open>Ae = gas flow / (RPS \<times> d\<^sup>3)\<close>. The closure returns exactly when these
  quotients and powers are finite real numbers. For a positive speed, gas flow and
  impeller diameter and a nonzero working volume the only condition left is that the
  summed power per volume is not negative.
\<close>

theorem kla_correlation:
  assumes "create_kla_function ag diam = Inr k"
  shows "(let r = ag_diameter ag / diam;
              A = 5.3 * exp (- 5.4 * r);
              B = 0.47 * r powr 1.3;
              C = 0.64 - 1.1 * r;
              froude = ag_diameter ag / 9.81 * RPS ^ 2;
              aeration = gas_flow / (RPS * ag_diameter ag ^ 3);
              ungassed = RPS ^ 3 * ungassed_power_coeff ag;
              lower = ungassed *
                (1 - (B - A * viscosity p / 1) * froude powr 0.25 * tanh (C * aeration));
              upper = (\<lambda>aeration_power.
                of_int (number ag - 1) * ungassed * (1 - (A + B * froude) * aeration_power));
              coefficient = (\<lambda>aeration_power.
                1080 * ((lower + upper aeration_power) / wv) powr 0.39 *
                  (gas_flow / (pi * diam ^ 2 / 4)) powr 0.79)
          in shape_A k = A \<and> shape_B k = B \<and> shape_C k = C \<and>
             (\<forall>v u. kla_func p k ag RPS gas_flow wv = Inr (v, u) \<longleftrightarrow>
                RPS * ag_diameter ag ^ 3 \<noteq> 0 \<and> 0 \<le> froude \<and> wv \<noteq> 0 \<and>
                0 \<le> gas_flow / (pi * diam ^ 2 / 4) \<and>
                (\<exists>aeration_power.
                   fpow aeration (C + 0.04 * froude) = Inr aeration_power \<and>
                   0 \<le> (lower + upper aeration_power) / wv \<and>
                   u = ''1/min'' \<and> v = coefficient aeration_power)) \<and>
             (0 < RPS \<and> 0 < gas_flow \<and> 0 < ag_diameter ag \<and> wv \<noteq> 0 \<longrightarrow>
                kla_func p k ag RPS gas_flow wv =
                  (if 0 \<le> (lower + upper (aeration powr (C + 0.04 * froude))) / wv
                   then Inr (coefficient (aeration powr (C + 0.04 * froude)), ''1/min'')
                   else Inl NotFinite)))"
proof -
  from assms have kA: "shape_A k = 5.3 * exp (- 5.4 * (ag_diameter ag / diam))"
    and kB: "shape_B k = 0.47 * (ag_diameter ag / diam) powr 1.3"
    and kC: "shape_C k = 0.64 - 1.1 * (ag_diameter ag / diam)"
    and kF: "froude_coeff k = ag_diameter ag / 9.81"
    and kS: "closure_CSA k = pi * diam ^ 2 / 4"
    and D: "diam \<noteq> 0"
    by (simp_all add: create_kla_function_eq_Inr)
  have fr: "froude_number k RPS = ag_diameter ag / 9.81 * RPS ^ 2"
    by (simp add: froude_number_def kF)
  have csa: "(pi * diam ^ 2 / 4 \<noteq> 0) = True" using D by simp
  show ?thesis
    unfolding Let_def
  proof (intro conjI allI impI)
    fix v u
    show "kla_func p k ag RPS gas_flow wv = Inr (v, u) \<longleftrightarrow>
      RPS * ag_diameter ag ^ 3 \<noteq> 0 \<and> 0 \<le> ag_diameter ag / 9.81 * RPS ^ 2 \<and> wv \<noteq> 0 \<and>
      0 \<le> gas_flow / (pi * diam ^ 2 / 4) \<and>
      (\<exists>aeration_power.
         fpow (gas_flow / (RPS * ag_diameter ag ^ 3))
           (0.64 - 1.1 * (ag_diameter ag / diam) + 0.04 * (ag_diameter ag / 9.81 * RPS ^ 2)) =
           Inr aeration_power \<and>
         0 \<le> (RPS ^ 3 * ungassed_power_coeff ag *
               (1 - (0.47 * (ag_diameter ag / diam) powr 1.3 -
                     5.3 * exp (- 5.4 * (ag_diameter ag / diam)) * viscosity p / 1) *
                    (ag_diameter ag / 9.81 * RPS ^ 2) powr 0.25 *
                    tanh ((0.64 - 1.1 * (ag_diameter ag / diam)) *
                          (gas_flow / (RPS * ag_diameter ag ^ 3)))) +
              of_int (number ag - 1) * (RPS ^ 3 * ungassed_power_coeff ag) *
               (1 - (5.3 * exp (- 5.4 * (ag_diameter ag / diam)) +
                     0.47 * (ag_diameter ag / diam) powr 1.3 *
                       (ag_diameter ag / 9.81 * RPS ^ 2)) * aeration_power)) / wv \<and>
         u = ''1/min'' \<and>
         v = 1080 *
             ((RPS ^ 3 * ungassed_power_coeff ag *
               (1 - (0.47 * (ag_diameter ag / diam) powr 1.3 -
                     5.3 * exp (- 5.4 * (ag_diameter ag / diam)) * viscosity p / 1) *
                    (ag_diameter ag / 9.81 * RPS ^ 2) powr 0.25 *
                    tanh ((0.64 - 1.1 * (ag_diameter ag / diam)) *
                          (gas_flow / (RPS * ag_diameter ag ^ 3)))) +
              of_int (number ag - 1) * (RPS ^ 3 * ungassed_power_coeff ag) *
               (1 - (5.3 * exp (- 5.4 * (ag_diameter ag / diam)) +
                     0.47 * (ag_diameter ag / diam) powr 1.3 *
                       (ag_diameter ag / 9.81 * RPS ^ 2)) * aeration_power)) / wv) powr 0.39 *
             (gas_flow / (pi * diam ^ 2 / 4)) powr 0.79)"
      unfolding kla_func_returns_iff fr ungassed_power_def kA kB kC kS csa
      by (rule iffI; (elim conjE)?; (intro conjI)?; (assumption | rule TrueI)?)
  next
    assume h: "0 < RPS \<and> 0 < gas_flow \<and> 0 < ag_diameter ag \<and> wv \<noteq> 0"
    then have rps: "0 < RPS" and gas: "0 < gas_flow" and d: "0 < ag_diameter ag"
      and wv: "wv \<noteq> 0"
      by simp_all
    show "kla_func p k ag RPS gas_flow wv =
      (if 0 \<le> (RPS ^ 3 * ungassed_power_coeff ag *
            (1 - (0.47 * (ag_diameter ag / diam) powr 1.3 -
                  5.3 * exp (- 5.4 * (ag_diameter ag / diam)) * viscosity p / 1) *
                 (ag_diameter ag / 9.81 * RPS ^ 2) powr 0.25 *
                 tanh ((0.64 - 1.1 * (ag_diameter ag / diam)) *
                       (gas_flow / (RPS * ag_diameter ag ^ 3)))) +
            of_int (number ag - 1) * (RPS ^ 3 * ungassed_power_coeff ag) *
            (1 - (5.3 * exp (- 5.4 * (ag_diameter ag / diam)) +
                  0.47 * (ag_diameter ag / diam) powr 1.3 * (ag_diameter ag / 9.81 * RPS ^ 2)) *
                 (gas_flow / (RPS * ag_diameter ag ^ 3)) powr
                   (0.64 - 1.1 * (ag_diameter ag / diam) +
                    0.04 * (ag_diameter ag / 9.81 * RPS ^ 2)))) / wv
       then Inr (1080 *
            ((RPS ^ 3 * ungassed_power_coeff ag *
              (1 - (0.47 * (ag_diameter ag / diam) powr 1.3 -
                    5.3 * exp (- 5.4 * (ag_diameter ag / diam)) * viscosity p / 1) *
                   (ag_diameter ag / 9.81 * RPS ^ 2) powr 0.25 *
                   tanh ((0.64 - 1.1 * (ag_diameter ag / diam)) *
                         (gas_flow / (RPS * ag_diameter ag ^ 3)))) +
              of_int (number ag - 1) * (RPS ^ 3 * ungassed_power_coeff ag) *
              (1 - (5.3 * exp (- 5.4 * (ag_diameter ag / diam)) +
                    0.47 * (ag_diameter ag / diam) powr 1.3 * (ag_diameter ag / 9.81 * RPS ^ 2)) *
                   (gas_flow / (RPS * ag_diameter ag ^ 3)) powr
                     (0.64 - 1.1 * (ag_diameter ag / diam) +
                      0.04 * (ag_diameter ag / 9.81 * RPS ^ 2)))) / wv) powr 0.39 *
            (gas_flow / (pi * diam ^ 2 / 4)) powr 0.79, ''1/min'')
       else Inl NotFinite)"
      using kla_func_positive_inputs [OF assms rps gas d wv, of p]
      unfolding kA kB kC .
  qed (fact kA kB kC)+
qed

lemma ex_pair_closure_created: "create_kla_function ex_agitator_pair (13 / 100) = Inr ex_closure"
  by (simp add: create_kla_function_def ex_agitator_pair_def agitator_with_def fpow_def
      ex_closure_def)

lemma ex_shape_A_bound: "5.3 * exp (- 5.4 * ((6 / 100) / (13 / 100) :: real)) \<le> 81 / 100"
proof -
  let ?x = "162 / 65 :: real"
  have x: "- 5.4 * ((6 / 100) / (13 / 100) :: real) = - ?x" by simp
  have "1 + ?x + ?x ^ 2 / 2 \<le> exp ?x"
    by (rule exp_lower_Taylor_quadratic) simp
  then have "(131 / 20 :: real) \<le> exp ?x"
    by (simp add: power2_eq_square)
  then have "inverse (exp ?x) \<le> inverse (131 / 20 :: real)"
    by (intro le_imp_inverse_le) simp_all
  then have "exp (- ?x) \<le> 20 / 131"
    by (simp add: exp_minus)
  then show ?thesis unfolding x by simp
qed

lemma ex_shape_B_bound:
  "0 \<le> 0.47 * ((6 / 100) / (13 / 100) :: real) powr 1.3 \<and>
   0.47 * ((6 / 100) / (13 / 100) :: real) powr 1.3 \<le> 47 / 100"
proof -
  have "((6 / 100) / (13 / 100) :: real) powr 1.3 \<le> 1"
    by (intro powr_le1) simp_all
  then show ?thesis by simp
qed

lemma lower_factor_positive:
  fixes a b f t ung v :: real
  assumes "0 \<le> a" "0 \<le> v" "b \<le> 47 / 100" "0 < f" "f \<le> 1" "0 \<le> t" "t < 1" "0 < ung"
  shows "0 < ung * (1 - (b - a * v / 1) * f * t)"
proof -
  have "0 \<le> a * v" using assms(1,2) by simp
  with assms(3) have "b - a * v / 1 \<le> 47 / 100" by simp
  from bounded_product [OF this assms(4) assms(5) assms(6) assms(7)]
  have "0 < 1 - (b - a * v / 1) * f * t" by simp
  with assms(8) show ?thesis by (rule mult_pos_pos)
qed

lemma upper_factor_positive:
  fixes a b fr ung :: real
  assumes "a \<le> 81 / 100" "0 \<le> b" "b \<le> 47 / 100" "0 \<le> fr" "fr \<le> 1 / 10" "0 < ung"
  shows "0 < 1 * ung * (1 - (a + b * fr) * 1)"
proof -
  have "b * fr \<le> (47 / 100) * (1 / 10)"
    using assms by (intro mult_mono) simp_all
  with assms(1) have "0 < 1 - (a + b * fr) * 1" by simp
  with assms(6) show ?thesis by simp
qed

theorem kla_correlation_witness:
  "create_kla_function ex_agitator_pair (13 / 100) = Inr ex_closure \<and>
   (let r = ag_diameter ex_agitator_pair / (13 / 100);
        A = 5.3 * exp (- 5.4 * r);
        B = 0.47 * r powr 1.3;
        C = 0.64 - 1.1 * r;
        froude = ag_diameter ex_agitator_pair / 9.81 * 3 ^ 2;
        aeration = (81 / 125000) / (3 * ag_diameter ex_agitator_pair ^ 3);
        ungassed = 3 ^ 3 * ungassed_power_coeff ex_agitator_pair;
        lower = ungassed *
          (1 - (B - A * viscosity ex_param / 1) * froude powr 0.25 * tanh (C * aeration));
        upper = of_int (number ex_agitator_pair - 1) * ungassed *
          (1 - (A + B * froude) * aeration powr (C + 0.04 * froude));
        power_per_volume = (lower + upper) / 1;
        superficial_velocity = (81 / 125000) / (pi * (13 / 100) ^ 2 / 4)
    in shape_A ex_closure = A \<and> shape_B ex_closure = B \<and> shape_C ex_closure = C \<and>
       (0::real) < 3 \<and> (0::real) < 81 / 125000 \<and> 0 < ag_diameter ex_agitator_pair \<and>
       (1::real) \<noteq> 0 \<and> 0 < lower \<and> 0 < upper \<and>
       kla_func ex_param ex_closure ex_agitator_pair 3 (81 / 125000) 1 =
         Inr (1080 * power_per_volume powr 0.39 * superficial_velocity powr 0.79, ''1/min''))"
proof -
  have d: "ag_diameter ex_agitator_pair = 6 / 100"
    and n: "number ex_agitator_pair = 2"
    and c: "ungassed_power_coeff ex_agitator_pair = 5.5 * 1000 * (6 / 100) ^ 5"
    by (simp_all add: ex_agitator_pair_def agitator_with_def)
  have v: "viscosity ex_param = 1 / 1000" by (simp add: ex_param_def)
  let ?A = "5.3 * exp (- 5.4 * ((6 / 100) / (13 / 100) :: real))"
  let ?B = "0.47 * ((6 / 100) / (13 / 100) :: real) powr 1.3"
  let ?C = "0.64 - 1.1 * ((6 / 100) / (13 / 100) :: real)"
  let ?fr = "(6 / 100) / 9.81 * 3 ^ 2 :: real"
  let ?aer = "(81 / 125000) / (3 * (6 / 100) ^ 3) :: real"
  let ?ung = "3 ^ 3 * (5.5 * 1000 * (6 / 100) ^ 5) :: real"
  let ?lower = "?ung * (1 - (?B - ?A * (1 / 1000) / 1) * ?fr powr 0.25 * tanh (?C * ?aer))"
  let ?upper = "of_int (2 - 1) * ?ung * (1 - (?A + ?B * ?fr) * ?aer powr (?C + 0.04 * ?fr))"
  have aer: "?aer = 1" by (simp add: power3_eq_cube)
  have ung0: "0 < ?ung" by simp
  have fr0: "0 < ?fr" by simp
  have fr1: "?fr \<le> 1 / 10" by (simp add: power2_eq_square)
  have A0: "0 \<le> ?A" by simp
  have f0: "0 < ?fr powr 0.25" using fr0 by (simp only: powr_gt_zero)
  have f1: "?fr powr 0.25 \<le> 1" by (intro powr_le1) simp_all
  have "0 \<le> ?C * ?aer" unfolding aer by simp
  then have t0: "0 \<le> tanh (?C * ?aer)" by (simp only: tanh_real_nonneg_iff)
  have t1: "tanh (?C * ?aer) < 1" by (rule tanh_real_lt_1)
  have lower0: "0 < ?lower"
    using A0 _ conjunct2 [OF ex_shape_B_bound] f0 f1 t0 t1 ung0
    by (rule lower_factor_positive) simp
  have "0 < 1 * ?ung * (1 - (?A + ?B * ?fr) * 1)"
    using ex_shape_A_bound conjunct1 [OF ex_shape_B_bound] conjunct2 [OF ex_shape_B_bound] _ fr1 ung0
    by (rule upper_factor_positive) simp
  then have upper0: "0 < ?upper"
    unfolding aer powr_one_eq_one by simp
  have ppv: "0 \<le> (?lower + ?upper) / 1" using lower0 upper0 by simp
  have pos: "(0::real) < 3 \<and> (0::real) < 81 / 125000 \<and> 0 < ag_diameter ex_agitator_pair \<and> (1::real) \<noteq> 0"
    by (simp add: d)
  note T = kla_correlation [OF ex_pair_closure_created, of 3 "81 / 125000" ex_param 1,
      unfolded Let_def d n c v]
  from T have sA: "shape_A ex_closure = ?A"
    and sB: "shape_B ex_closure = ?B"
    and sC: "shape_C ex_closure = ?C"
    by blast+
  from T pos [unfolded d] have
    "kla_func ex_param ex_closure ex_agitator_pair 3 (81 / 125000) 1 =
      (if 0 \<le> (?lower + ?upper) / 1
       then Inr (1080 * ((?lower + ?upper) / 1) powr 0.39 *
                 ((81 / 125000) / (pi * (13 / 100) ^ 2 / 4)) powr 0.79, ''1/min'')
       else Inl NotFinite)"
    by blast
  then have K: "kla_func ex_param ex_closure ex_agitator_pair 3 (81 / 125000) 1 =
       Inr (1080 * ((?lower + ?upper) / 1) powr 0.39 *
                 ((81 / 125000) / (pi * (13 / 100) ^ 2 / 4)) powr 0.79, ''1/min'')"
    using ppv by (simp only: if_True)
  show ?thesis
    unfolding Let_def d n c v
    using ex_pair_closure_created sA sB sC pos [unfolded d] lower0 upper0 K
    by blast
qed

section \<open>What each stage of a step leaves alone\<close>

lemma check_and_update_frame:
  "mole (snd (check_and_update p a br)) = mole br"
  "working_volume (snd (check_and_update p a br)) = working_volume br"
  "temperature (snd (check_and_update p a br)) = temperature br"
  "pressure (snd (check_and_update p a br)) = pressure br"
  "overall_heat_transfer_coeff (snd (check_and_update p a br)) = overall_heat_transfer_coeff br"
  by (simp_all add: check_and_update_def recompute_def update_shear_def Let_def
      split: sum.splits bool.splits)

lemma update_component_frame:
  assumes "update_component p a c x br = Inr br'"
  shows "br' = br\<lparr>mole := mole br'\<rparr>"
  using assms
  by (auto simp: update_component_def relax_component_def feed_component_def rbind_eq_Inr
      split: if_splits)

lemma update_moles_frame:
  "snd (update_moles p a c xs br) = br\<lparr>mole := mole (snd (update_moles p a c xs br))\<rparr>"
proof (induction xs arbitrary: br)
  case Nil
  then show ?case by simp
next
  case (Cons x xs)
  show ?case
  proof (cases "update_component p a c x br")
    case (Inl e)
    then show ?thesis by simp
  next
    case (Inr br1)
    from update_component_frame [OF Inr] have f: "br1 = br\<lparr>mole := mole br1\<rparr>" .
    have "snd (update_moles p a c xs br1) = br1\<lparr>mole := mole (snd (update_moles p a c xs br1))\<rparr>"
      by (rule Cons.IH)
    also have "\<dots> = br\<lparr>mole := mole (snd (update_moles p a c xs br1))\<rparr>"
      by (subst f) simp
    finally show ?thesis using Inr by simp
  qed
qed

lemma step_mole:
  "mole (snd (step p a c br)) =
     mole (snd (update_moles p a c (liquid_components p) (snd (check_and_update p a br)))) \<or>
   mole (snd (step p a c br)) = mole br"
proof -
  obtain r1 br1 where c: "check_and_update p a br = (r1, br1)" by (cases "check_and_update p a br")
  obtain r2 br2 where m: "update_moles p a c (liquid_components p) br1 = (r2, br2)"
    by (cases "update_moles p a c (liquid_components p) br1")
  have "mole br1 = mole br" using check_and_update_frame(1) [of p a br] c by simp
  then show ?thesis
    using c m
    by (simp add: step_def update_volume_def update_temperature_def
        split: sum.splits prod.splits)
qed

section \<open>Species that are neither fed nor exchanged\<close>

lemma update_component_keeps:
  assumes "\<not> exchanged p x" and "map_of a x = Some 0" and "map_of (mass_transfer c) x = Some 0"
    and "update_component p a c y br = Inr br'"
  shows "map_of (mole br') x = map_of (mole br) x"
proof (cases "y = x")
  case True
  with assms show ?thesis
    by (auto simp: update_component_def feed_component_def fed_moles_def rbind_eq_Inr
        getitem_eq_Inr map_of_setitem)
next
  case False
  with assms(4) show ?thesis
    by (auto simp: update_component_def relax_component_def feed_component_def rbind_eq_Inr
        map_of_setitem split: if_splits)
qed

lemma update_moles_keeps:
  assumes "\<not> exchanged p x" and "map_of a x = Some 0" and "map_of (mass_transfer c) x = Some 0"
  shows "map_of (mole (snd (update_moles p a c xs br))) x = map_of (mole br) x"
proof (induction xs arbitrary: br)
  case Nil
  then show ?case by simp
next
  case (Cons y xs)
  show ?case
  proof (cases "update_component p a c y br")
    case (Inl e)
    then show ?thesis by simp
  next
    case (Inr br1)
    have "map_of (mole br1) x = map_of (mole br) x"
      by (rule update_component_keeps [OF assms Inr])
    with Cons.IH [of br1] Inr show ?thesis by simp
  qed
qed

text \<open>
  C7. For a species without a gas-phase counterpart whose feed rate in the actuation
  command and whose cell mass-transfer rate are both zero, a call of \<open>step\<close> leaves the
  molar inventory of that species as it was (whether the call returns or raises).
\<close>

theorem unfed_species_conserved:
  assumes "\<not> exchanged p component"
    and "map_of a component = Some 0"
    and "map_of (mass_transfer c) component = Some 0"
  shows "map_of (mole (snd (step p a c br))) component = map_of (mole br) component"
proof -
  let ?br1 = "snd (check_and_update p a br)"
  have "map_of (mole (snd (update_moles p a c (liquid_components p) ?br1))) component =
        map_of (mole ?br1) component"
    by (rule update_moles_keeps [OF assms])
  then show ?thesis
    using step_mole [of p a c br] check_and_update_frame(1) [of p a br] by auto
qed

section \<open>Gas-phase composition at zero flow\<close>

lemma sum_flows_zero:
  assumes "\<forall>g \<in> set gs. map_of a g = Some 0"
  shows "sum_flows a gs t = Inr t"
  using assms by (induction gs arbitrary: t) simp_all

text \<open>
  C5, as the code has it. When every gas-component flow in the actuation command is
  zero, the gas-phase composition calculation returns no fractions: the first fraction
  is the quotient of a zero flow by the zero total, which is not a number, and that
  undefined value is the outcome. There is no zero-flow guard.
\<close>

theorem zero_flow_undefined:
  assumes "gas_components p \<noteq> []"
    and "\<forall>g \<in> set (gas_components p). map_of a g = Some 0"
  shows "calc_gas_percentages p a = Inl NotFinite"
proof -
  obtain g gs where gs: "gas_components p = g # gs"
    using assms(1) by (cases "gas_components p") auto
  have "sum_flows a (gas_components p) 0 = Inr 0"
    by (rule sum_flows_zero [OF assms(2)])
  moreover have "map_of a g = Some 0" using assms(2) gs by simp
  ultimately show ?thesis by (simp add: calc_gas_percentages_def gs)
qed

theorem zero_flow_undefined_witness:
  "gas_components ex_param \<noteq> [] \<and>
   list_all (\<lambda>g. map_of [(''O2'', 0), (''CO2'', 0), (''air'', 0 :: real)] g = Some 0)
     (gas_components ex_param) \<and>
   calc_gas_percentages ex_param [(''O2'', 0), (''CO2'', 0), (''air'', 0)] = Inl NotFinite"
proof -
  have ne: "gas_components ex_param \<noteq> []" by (simp add: ex_param_def)
  have z: "\<forall>g \<in> set (gas_components ex_param).
             map_of [(''O2'', 0), (''CO2'', 0), (''air'', 0 :: real)] g = Some 0"
    by (simp add: ex_param_def)
  show ?thesis using zero_flow_undefined [OF ne z] ne z by (simp add: list_all_iff)
qed

text \<open>
  With all three gas flows of the reference configuration at zero the calculation does
  not return the all-zero fractions.
\<close>

theorem zero_flow_counterexample:
  "calc_gas_percentages ex_param [(''O2'', 0), (''CO2'', 0), (''air'', 0)] = Inl NotFinite \<and>
   calc_gas_percentages ex_param [(''O2'', 0), (''CO2'', 0), (''air'', 0)] \<noteq>
     Inr [(''dO2'', 0), (''dCO2'', 0), (''dair'', 0)]"
  by (simp add: calc_gas_percentages_def ex_param_def)

section \<open>The change-detection cache\<close>

lemma new_kla_frame [simp]:
  "new_kla p a (br\<lparr>current_time := t\<rparr>) = new_kla p a br"
  "new_kla p a (br\<lparr>old := od\<rparr>) = new_kla p a br"
  by (simp_all add: new_kla_def)

lemma mean_shear_of_frame [simp]:
  "mean_shear_of (br\<lparr>current_time := t\<rparr>) rps = mean_shear_of br rps"
  "mean_shear_of (br\<lparr>old := od\<rparr>) rps = mean_shear_of br rps"
  "mean_shear_of (br\<lparr>kla := k\<rparr>) rps = mean_shear_of br rps"
  "mean_shear_of (br\<lparr>gas_percentages := g\<rparr>) rps = mean_shear_of br rps"
  by (simp_all add: mean_shear_of_def)

lemma check_and_update_reuse:
  assumes "dict_eq a (old br)" and "map_of a ''liquid_volume'' = Some 0"
  shows "check_and_update p a br = (Inr (), br\<lparr>current_time := current_time br + resolution p\<rparr>)"
  using assms by (simp add: check_and_update_def same_and_no_feed_def)

lemma recompute_success:
  assumes "fst (recompute p a br) = Inr ()"
  shows "\<exists>k percent rps ms.
           new_kla p a br = Inr k \<and> calc_gas_percentages p a = Inr percent \<and>
           map_of a ''RPS'' = Some rps \<and> mean_shear_of br rps = Inr ms \<and>
           snd (recompute p a br) =
             br\<lparr>old := a, kla := Some k, gas_percentages := Some percent,
                mean_shear := Some ms, max_shear := Some (ms / 4.2 * 9.7)\<rparr>"
proof -
  obtain k where k: "new_kla p a br = Inr k"
    using assms by (cases "new_kla p a br") (simp_all add: recompute_def)
  obtain percent where g: "calc_gas_percentages p a = Inr percent"
    using assms k by (cases "calc_gas_percentages p a") (simp_all add: recompute_def)
  obtain rps where r: "getitem a ''RPS'' = Inr rps"
    using assms k g by (cases "getitem a ''RPS''") (simp_all add: recompute_def)
  obtain ms where m: "mean_shear_of br rps = Inr ms"
    using assms k g r
    by (cases "mean_shear_of br rps") (simp_all add: recompute_def update_shear_def)
  have "snd (recompute p a br) =
             br\<lparr>old := a, kla := Some k, gas_percentages := Some percent,
                mean_shear := Some ms, max_shear := Some (ms / 4.2 * 9.7)\<rparr>"
    using k g r m by (simp add: recompute_def update_shear_def)
  moreover have "map_of a ''RPS'' = Some rps" using r by (simp add: getitem_eq_Inr)
  ultimately show ?thesis using k g m by blast
qed

lemma check_and_update_recompute:
  assumes "\<not> (dict_eq a (old br) \<and> map_of a ''liquid_volume'' = Some 0)"
    and "fst (check_and_update p a br) = Inr ()"
  shows "\<exists>k percent rps ms.
           new_kla p a br = Inr k \<and> calc_gas_percentages p a = Inr percent \<and>
           map_of a ''RPS'' = Some rps \<and> mean_shear_of br rps = Inr ms \<and>
           snd (check_and_update p a br) =
             br\<lparr>current_time := current_time br + resolution p,
                old := a, kla := Some k, gas_percentages := Some percent,
                mean_shear := Some ms, max_shear := Some (ms / 4.2 * 9.7)\<rparr>"
proof -
  let ?b = "br\<lparr>current_time := current_time br + resolution p\<rparr>"
  have "same_and_no_feed a ?b \<noteq> Inr True"
    using assms(1) by (auto simp: same_and_no_feed_def rbind_eq_Inr getitem_eq_Inr split: if_splits)
  with assms(2) have "check_and_update p a br = recompute p a ?b"
    by (cases "same_and_no_feed a ?b") (auto simp: check_and_update_def Let_def)
  with assms(2) recompute_success [of p a ?b] show ?thesis by simp
qed

lemma check_and_update_recomputes:
  assumes differs: "\<not> dict_eq a (old br) \<or> (\<exists>lv. map_of a ''liquid_volume'' = Some lv \<and> lv \<noteq> 0)"
    and k: "new_kla p a br = Inr k"
    and g: "calc_gas_percentages p a = Inr percent"
    and r: "map_of a ''RPS'' = Some rps"
    and m: "mean_shear_of br rps = Inr ms"
  shows "check_and_update p a br =
           (Inr (), br\<lparr>current_time := current_time br + resolution p,
                old := a, kla := Some k, gas_percentages := Some percent,
                mean_shear := Some ms, max_shear := Some (ms / 4.2 * 9.7)\<rparr>)"
proof -
  let ?b = "br\<lparr>current_time := current_time br + resolution p\<rparr>"
  have "same_and_no_feed a ?b = Inr False"
    using differs by (auto simp: same_and_no_feed_def)
  then have "check_and_update p a br = recompute p a ?b"
    by (simp add: check_and_update_def)
  also have "\<dots> = (Inr (), ?b\<lparr>old := a, kla := Some k, gas_percentages := Some percent,
                mean_shear := Some ms, max_shear := Some (ms / 4.2 * 9.7)\<rparr>)"
    using k g r m by (simp add: recompute_def update_shear_def)
  finally show ?thesis by simp
qed

section \<open>The first command of the reference scenario\<close>

lemma ex_mean_shear:
  assumes "the_agitator br = ex_agitator" and "diameter br = 13 / 100"
  shows "mean_shear_of br rps = Inr (ex_shear rps)"
  unfolding mean_shear_of_def assms
  by (simp add: ex_agitator_def agitator_with_def ex_shear_def)

lemma ex_new_kla:
  assumes "the_agitator br = ex_agitator" and "kla_func_closure br = ex_closure"
    and "working_volume br = 1" and "map_of a ''RPS'' = Some rps" and "0 < rps" and "rps \<le> 3"
    and "map_of a ''gas_volume'' = Some (1 / 2)"
  shows "\<exists>k. new_kla ex_param a br = Inr k \<and> 0 < k"
proof -
  have "rps ^ 2 \<le> 3 ^ 2" using assms(5,6) by (intro power_mono) simp_all
  then have fr: "ag_diameter ex_agitator * rps ^ 2 \<le> 9.81"
    by (simp add: ex_agitator_def agitator_with_def)
  have "\<exists>v. kla_func ex_param ex_closure ex_agitator rps (1 / 2) 1 = Inr (v, ''1/min'') \<and> 0 < v"
    using assms(5) fr
    by (intro single_impeller_kla_positive [OF ex_closure_created])
      (simp_all add: ex_agitator_def agitator_with_def ex_param_def)
  then obtain v where
    v: "kla_func ex_param ex_closure ex_agitator rps (1 / 2) 1 = Inr (v, ''1/min'')" and v0: "0 < v"
    by blast
  have r: "getitem a ''RPS'' = Inr rps" by (rule getitem_Some) fact
  have g: "getitem a ''gas_volume'' = Inr (1 / 2)" by (rule getitem_Some) fact
  have "new_kla ex_param a br = Inr v"
    unfolding new_kla_def assms(1,2,3) r g rbind_Inr v by simp
  with v0 show ?thesis by blast
qed

lemma ex_gas_percentages:
  assumes "map_of a ''O2'' = Some 0" "map_of a ''CO2'' = Some 0" "map_of a ''air'' = Some (1 / 2)"
  shows "calc_gas_percentages ex_param a =
     Inr [(''dO2'', 21 / 100), (''dCO2'', 45 / 100000), (''dair'', 1)]"
  using assms
  by (simp add: calc_gas_percentages_def ex_param_def setitem_def add_air_share_def getitem_def)

lemma ex_first_command:
  "\<exists>k. 0 < k \<and>
     check_and_update ex_param ex_actuation ex_reactor = (Inr (), ex_reactor_stirred k)"
proof -
  obtain k where k: "new_kla ex_param ex_actuation ex_reactor = Inr k" and k0: "0 < k"
    using ex_new_kla [of ex_reactor ex_actuation 3]
    by (auto simp: ex_reactor_def ex_actuation_def)
  have d: "\<not> dict_eq ex_actuation (old ex_reactor) \<or>
      (\<exists>lv. map_of ex_actuation ''liquid_volume'' = Some lv \<and> lv \<noteq> 0)"
    by (simp add: dict_eq_def ex_actuation_def ex_reactor_def)
  have g: "calc_gas_percentages ex_param ex_actuation =
     Inr [(''dO2'', 21 / 100), (''dCO2'', 45 / 100000), (''dair'', 1)]"
    by (rule ex_gas_percentages) (simp_all add: ex_actuation_def)
  have r: "map_of ex_actuation ''RPS'' = Some 3" by (simp add: ex_actuation_def)
  have m: "mean_shear_of ex_reactor 3 = Inr (ex_shear 3)"
    by (rule ex_mean_shear) (simp_all add: ex_reactor_def)
  have "check_and_update ex_param ex_actuation ex_reactor =
     (Inr (), ex_reactor\<lparr>current_time := current_time ex_reactor + resolution ex_param,
        old := ex_actuation, kla := Some k,
        gas_percentages := Some [(''dO2'', 21 / 100), (''dCO2'', 45 / 100000), (''dair'', 1)],
        mean_shear := Some (ex_shear 3),
        max_shear := Some (ex_shear 3 / 4.2 * 9.7)\<rparr>)"
    by (rule check_and_update_recomputes [OF d k g r m])
  moreover have "current_time ex_reactor + resolution ex_param = 1"
    by (simp add: ex_reactor_def ex_param_def)
  ultimately show ?thesis using k0 by (intro exI [of _ k]) (simp add: ex_reactor_stirred_def)
qed

section \<open>The first step of the reference scenario\<close>

lemma ex_update_moles:
  assumes "0 < k"
  shows "update_moles ex_param ex_actuation ex_cells (liquid_components ex_param)
           (ex_reactor_stirred k) =
         (Inr (), (ex_reactor_stirred k)\<lparr>mole := ex_moles k\<rparr>)"
  using assms
  by (simp add: ex_param_def ex_actuation_def ex_cells_def ex_reactor_stirred_def ex_reactor_def
      update_component_def exchanged_def relax_component_def relaxed_moles_def
      feed_component_def fed_moles_def solubility_def getitem_def getattr_def setitem_def Let_def
      ex_moles_def)

lemma ex_update_volume:
  "update_volume ex_param ex_actuation ((ex_reactor_stirred k)\<lparr>mole := ex_moles k\<rparr>) =
     (Inr (), (ex_reactor_stirred k)\<lparr>mole := ex_moles k, working_volume := 1\<rparr>)"
  by (simp add: update_volume_def ex_actuation_def ex_param_def ex_reactor_stirred_def
      ex_reactor_def)

lemma ex_update_temperature:
  "update_temperature ex_param ex_actuation
     ((ex_reactor_stirred k)\<lparr>mole := ex_moles k, working_volume := 1\<rparr>) =
     (Inr (), ex_reactor_stepped k)"
  by (simp add: update_temperature_def temperature_change_def ex_actuation_def ex_param_def
      ex_reactor_stirred_def ex_reactor_def ex_reactor_stepped_def Let_def)

lemma ex_stepped_pH:
  assumes "0 < k"
  shows "\<exists>ph. pH ex_param (ex_reactor_stepped k) = Inr ph"
proof -
  let ?co2 = "(1 - exp (- (k * 9 / 10))) * (45 / 100000 * (10981 / 10000) * (3009 / 100))"
  have m: "map_of (mole (ex_reactor_stepped k)) ''dCO2'' = Some ?co2"
    by (simp add: ex_reactor_stepped_def ex_moles_def)
  have v: "0 < working_volume (ex_reactor_stepped k)"
    by (simp add: ex_reactor_stepped_def)
  have u0: "0 < conc_unit (ex_reactor_stepped k)"
    by (simp add: ex_reactor_stepped_def ex_reactor_stirred_def ex_reactor_def)
  have u1: "conc_unit (ex_reactor_stepped k) \<le> 1"
    by (simp add: ex_reactor_stepped_def ex_reactor_stirred_def ex_reactor_def)
  have "exp (- (k * 9 / 10)) \<le> 1" using assms by simp
  then have c: "0 \<le> ?co2" by simp
  show ?thesis by (rule pH_returns [OF v m c u0 u1])
qed

lemma ex_build_environment:
  assumes "0 < k"
  shows "\<exists>env. build_environment ex_param (1 / 1000) (ex_reactor_stepped k) = Inr env"
proof -
  obtain ph where ph: "pH ex_param (ex_reactor_stepped k) = Inr ph"
    using ex_stepped_pH [OF assms] by blast
  show ?thesis
    unfolding build_environment_def ph
    by (simp add: ex_reactor_stepped_def ex_reactor_stirred_def ex_moles_def ex_param_def
        getitem_def)
qed

lemma ex_step:
  assumes "0 < k"
    and "check_and_update ex_param ex_actuation ex_reactor = (Inr (), ex_reactor_stirred k)"
  shows "\<exists>env. step ex_param ex_actuation ex_cells ex_reactor = (Inr env, ex_reactor_stepped k)"
proof -
  obtain env where env: "build_environment ex_param (1 / 1000) (ex_reactor_stepped k) = Inr env"
    using ex_build_environment [OF assms(1)] by blast
  have cf: "fdiv (total_cells ex_cells * cell_volume ex_cells)
              (working_volume (ex_reactor_stirred k)) = Inr (1 / 1000)"
    by (simp add: ex_cells_def ex_reactor_stirred_def ex_reactor_def)
  have "step ex_param ex_actuation ex_cells ex_reactor = (Inr env, ex_reactor_stepped k)"
    unfolding step_def assms(2)
    by (simp add: cf ex_update_moles [OF assms(1)] ex_update_volume ex_update_temperature env)
  then show ?thesis by blast
qed

lemma ex_step_succeeds:
  "\<exists>k env. 0 < k \<and>
     step ex_param ex_actuation ex_cells ex_reactor = (Inr env, ex_reactor_stepped k)"
  using ex_first_command ex_step by blast

section \<open>The relaxation of the gas-exchanged species\<close>

lemma relaxed_moles_eq_Inr:
  "relaxed_moles p c x br = Inr v \<longleftrightarrow>
     (\<exists>percent fraction sol k ratio m uptake.
        gas_percentages br = Some percent \<and> map_of percent x = Some fraction \<and>
        map_of solubility x = Some sol \<and> kla br = Some k \<and>
        map_of (kla_ratio p) x = Some ratio \<and> map_of (mole br) x = Some m \<and>
        map_of (mass_transfer c) x = Some uptake \<and> k * ratio \<noteq> 0 \<and>
        v = exp (- (k * ratio) * q_res p) * m +
            (1 - exp (- (k * ratio) * q_res p)) *
            (fraction * pressure br * sol (temperature br) * working_volume br -
             uptake / (k * ratio)))"
  by (auto simp: relaxed_moles_def rbind_eq_Inr getitem_eq_Inr getattr_eq_Inr fdiv_eq_Inr Let_def)

lemma relaxed_moles_cong:
  assumes "br2 = br\<lparr>mole := mole br2\<rparr>" and "map_of (mole br2) x = map_of (mole br) x"
  shows "relaxed_moles p c x br2 = relaxed_moles p c x br"
proof -
  have "relaxed_moles p c x (br\<lparr>mole := mole br2\<rparr>) = relaxed_moles p c x br"
    using assms(2) by (simp add: relaxed_moles_def getitem_def)
  with assms(1) show ?thesis by simp
qed

lemma update_component_other:
  assumes "update_component p a c y br = Inr br'" and "y \<noteq> x"
  shows "map_of (mole br') x = map_of (mole br) x"
  using assms
  by (auto simp: update_component_def relax_component_def feed_component_def rbind_eq_Inr
      map_of_setitem split: if_splits)

lemma update_moles_other:
  assumes "x \<notin> set xs"
  shows "map_of (mole (snd (update_moles p a c xs br))) x = map_of (mole br) x"
  using assms
proof (induction xs arbitrary: br)
  case Nil
  then show ?case by simp
next
  case (Cons y xs)
  show ?case
  proof (cases "update_component p a c y br")
    case (Inl e)
    then show ?thesis by simp
  next
    case (Inr br1)
    have "y \<noteq> x" using Cons.prems by auto
    then have "map_of (mole br1) x = map_of (mole br) x"
      by (rule update_component_other [OF Inr])
    moreover have "x \<notin> set xs" using Cons.prems by simp
    ultimately show ?thesis using Cons.IH [of br1] Inr by simp
  qed
qed

lemma update_moles_relaxes:
  assumes "distinct xs" and "x \<in> set xs" and "exchanged p x"
    and "update_moles p a c xs br = (Inr (), br')"
  shows "\<exists>v. relaxed_moles p c x br = Inr v \<and> map_of (mole br') x = Some v"
  using assms
proof (induction xs arbitrary: br)
  case Nil
  then show ?case by simp
next
  case (Cons y xs)
  from Cons.prems(4) obtain br1 where
    y: "update_component p a c y br = Inr br1" and
    rest: "update_moles p a c xs br1 = (Inr (), br')"
    by (cases "update_component p a c y br") auto
  show ?case
  proof (cases "y = x")
    case True
    with y Cons.prems(3) obtain v where
      v: "relaxed_moles p c x br = Inr v" and br1: "br1 = br\<lparr>mole := setitem x v (mole br)\<rparr>"
      by (auto simp: update_component_def relax_component_def rbind_eq_Inr)
    have "x \<notin> set xs" using Cons.prems(1) True by simp
    then have "map_of (mole (snd (update_moles p a c xs br1))) x = map_of (mole br1) x"
      by (rule update_moles_other)
    with rest br1 have "map_of (mole br') x = Some v" by (simp add: map_of_setitem)
    with v show ?thesis by blast
  next
    case False
    then have "x \<in> set xs" using Cons.prems(2) by auto
    moreover have "distinct xs" using Cons.prems(1) by simp
    ultimately obtain v where
      v: "relaxed_moles p c x br1 = Inr v" and m: "map_of (mole br') x = Some v"
      using Cons.IH [OF _ _ Cons.prems(3) rest] by blast
    have "relaxed_moles p c x br1 = relaxed_moles p c x br"
      using update_component_frame [OF y] update_component_other [OF y False]
      by (rule relaxed_moles_cong)
    with v m show ?thesis by auto
  qed
qed

lemma step_success_stages:
  assumes "step p a c br = (Inr env, br')"
  shows "\<exists>br1 br2. check_and_update p a br = (Inr (), br1) \<and>
           update_moles p a c (liquid_components p) br1 = (Inr (), br2) \<and>
           mole br' = mole br2 \<and> kla br' = kla br2 \<and>
           gas_percentages br' = gas_percentages br2"
proof -
  obtain r1 br1 where c: "check_and_update p a br = (r1, br1)"
    by (cases "check_and_update p a br")
  have r1: "r1 = Inr ()" using assms c by (cases r1) (simp_all add: step_def)
  obtain cf where cf: "fdiv (total_cells c * cell_volume c / 1) (working_volume br1) = Inr cf"
    using assms c r1
    by (cases "fdiv (total_cells c * cell_volume c / 1) (working_volume br1)")
      (simp_all add: step_def)
  obtain r2 br2 where m: "update_moles p a c (liquid_components p) br1 = (r2, br2)"
    by (cases "update_moles p a c (liquid_components p) br1")
  have r2: "r2 = Inr ()" using assms c r1 cf m by (cases r2) (simp_all add: step_def)
  obtain r3 br3 where v: "update_volume p a br2 = (r3, br3)"
    by (cases "update_volume p a br2")
  have r3: "r3 = Inr ()" using assms c r1 cf m r2 v by (cases r3) (simp_all add: step_def)
  obtain r4 br4 where t: "update_temperature p a br3 = (r4, br4)"
    by (cases "update_temperature p a br3")
  have r4: "r4 = Inr ()" using assms c r1 cf m r2 v r3 t by (cases r4) (simp_all add: step_def)
  have b: "br' = br4"
    using assms c r1 cf m r2 v r3 t r4
    by (cases "build_environment p cf br4") (simp_all add: step_def)
  have b3: "mole br3 = mole br2 \<and> kla br3 = kla br2 \<and> gas_percentages br3 = gas_percentages br2"
    using v r3 by (auto simp: update_volume_def split: sum.splits)
  have b4: "mole br4 = mole br3 \<and> kla br4 = kla br3 \<and> gas_percentages br4 = gas_percentages br3"
    using t r4 by (auto simp: update_temperature_def split: sum.splits)
  show ?thesis using c r1 m r2 b b3 b4 by simp
qed

text \<open>
  C1. Let a step return. For every liquid component whose name is \<open>d\<close> followed by the
  name of a gas component (the components being listed once each), the step replaces
  its moles \<open>m\<close> by \<open>e\<^sup>-\<^sup>k\<^sup>'\<^sup>t m + (1 - e\<^sup>-\<^sup>k\<^sup>'\<^sup>t) (C V - u / k')\<close>, where \<open>k'\<close> is the cached
  kLa times the species' ratio, \<open>t\<close> the step length \<open>q_res\<close>, \<open>C\<close> the cached gas
  fraction times the pressure times the solubility (linear in the temperature), \<open>V\<close>
  the working volume and \<open>u\<close> the cell state's mass-transfer entry of the species;
  temperature, volume and moles are those before the step.
\<close>

theorem gas_exchange_relaxation:
  assumes "step p a c br = (Inr env, br')"
    and "distinct (liquid_components p)"
    and "component \<in> set (liquid_components p)"
    and "component = CHR ''d'' # gas"
    and "gas \<in> set (gas_components p)"
  shows "\<exists>k percent fraction ratio uptake m.
           kla br' = Some k \<and>
           gas_percentages br' = Some percent \<and> map_of percent component = Some fraction \<and>
           map_of (kla_ratio p) component = Some ratio \<and>
           map_of (mass_transfer c) component = Some uptake \<and>
           map_of (mole br) component = Some m \<and>
           k * ratio \<noteq> 0 \<and>
           (component = ''dO2'' \<or> component = ''dCO2'') \<and>
           map_of (mole br') component =
             Some (exp (- (k * ratio) * q_res p) * m +
                   (1 - exp (- (k * ratio) * q_res p)) *
                   (fraction * pressure br *
                      (if component = ''dO2'' then 1.58 - temperature br * 0.015
                       else 48.39 - temperature br * 0.61) *
                      working_volume br -
                    uptake / (k * ratio)))"
proof -
  from step_success_stages [OF assms(1)] obtain br1 br2 where
    c: "check_and_update p a br = (Inr (), br1)" and
    m: "update_moles p a c (liquid_components p) br1 = (Inr (), br2)" and
    same: "mole br' = mole br2" "kla br' = kla br2" "gas_percentages br' = gas_percentages br2"
    by blast
  have ex: "exchanged p component" using assms(4,5) by (simp add: exchanged_def)
  from update_moles_relaxes [OF assms(2,3) ex m] obtain v where
    v: "relaxed_moles p c component br1 = Inr v" and v': "map_of (mole br2) component = Some v"
    by blast
  have f2: "br2 = br1\<lparr>mole := mole br2\<rparr>"
    using update_moles_frame [of p a c "liquid_components p" br1] m by simp
  have k2: "kla br2 = kla br1" by (subst f2) simp
  have g2: "gas_percentages br2 = gas_percentages br1" by (subst f2) simp
  have f1: "mole br1 = mole br" "working_volume br1 = working_volume br"
    "temperature br1 = temperature br" "pressure br1 = pressure br"
    using check_and_update_frame [of p a br] c by simp_all
  from v obtain percent fraction sol k ratio m0 uptake where
    r: "gas_percentages br1 = Some percent" "map_of percent component = Some fraction"
       "map_of solubility component = Some sol" "kla br1 = Some k"
       "map_of (kla_ratio p) component = Some ratio" "map_of (mole br1) component = Some m0"
       "map_of (mass_transfer c) component = Some uptake" "k * ratio \<noteq> 0" and
    veq: "v = exp (- (k * ratio) * q_res p) * m0 +
            (1 - exp (- (k * ratio) * q_res p)) *
            (fraction * pressure br1 * sol (temperature br1) * working_volume br1 -
             uptake / (k * ratio))"
    unfolding relaxed_moles_eq_Inr by blast
  have which: "component = ''dO2'' \<or> component = ''dCO2''"
    using r(3) by (auto simp: solubility_def split: if_splits)
  have sol: "sol (temperature br) =
     (if component = ''dO2'' then 1.58 - temperature br * 0.015
      else 48.39 - temperature br * 0.61)"
    using r(3) by (auto simp: solubility_def split: if_splits)
  have "map_of (mole br') component =
             Some (exp (- (k * ratio) * q_res p) * m0 +
                   (1 - exp (- (k * ratio) * q_res p)) *
                   (fraction * pressure br *
                      (if component = ''dO2'' then 1.58 - temperature br * 0.015
                       else 48.39 - temperature br * 0.61) *
                      working_volume br -
                    uptake / (k * ratio)))"
    unfolding same(1) v' veq f1 sol by (rule refl)
  moreover have "kla br' = Some k" by (simp add: same k2 r)
  moreover have "gas_percentages br' = Some percent" by (simp add: same g2 r)
  moreover have "map_of (mole br) component = Some m0" using r(6) f1(1) by simp
  ultimately show ?thesis using r(2,5,7,8) which by blast
qed

theorem gas_exchange_relaxation_witness:
  "distinct (liquid_components ex_param) \<and>
   ''dO2'' \<in> set (liquid_components ex_param) \<and>
   ''O2'' \<in> set (gas_components ex_param) \<and>
   (\<exists>env br' k.
      step ex_param ex_actuation ex_cells ex_reactor = (Inr env, br') \<and>
      kla br' = Some k \<and> k \<noteq> 0 \<and>
      map_of (mole br') ''dO2'' =
        Some (exp (- k) * 0 +
              (1 - exp (- k)) * (21 / 100 * (10981 / 10000) * (158 / 100 - 30 * (15 / 1000)) * 1 -
                 (1 / 100) / k)))"
proof -
  obtain k0 env where s: "step ex_param ex_actuation ex_cells ex_reactor = (Inr env, ex_reactor_stepped k0)"
    using ex_step_succeeds by blast
  have d: "distinct (liquid_components ex_param)" by (simp add: ex_param_def)
  have l: "''dO2'' \<in> set (liquid_components ex_param)" by (simp add: ex_param_def)
  have g: "''O2'' \<in> set (gas_components ex_param)" by (simp add: ex_param_def)
  have n: "''dO2'' = CHR ''d'' # ''O2''" by simp
  from gas_exchange_relaxation [OF s d l n g]
  obtain k percent fraction ratio uptake m where
    h: "kla (ex_reactor_stepped k0) = Some k"
       "gas_percentages (ex_reactor_stepped k0) = Some percent"
       "map_of percent ''dO2'' = Some fraction"
       "map_of (kla_ratio ex_param) ''dO2'' = Some ratio"
       "map_of (mass_transfer ex_cells) ''dO2'' = Some uptake"
       "map_of (mole ex_reactor) ''dO2'' = Some m"
       "k * ratio \<noteq> 0" and
    v: "map_of (mole (ex_reactor_stepped k0)) ''dO2'' =
             Some (exp (- (k * ratio) * q_res ex_param) * m +
                   (1 - exp (- (k * ratio) * q_res ex_param)) *
                   (fraction * pressure ex_reactor *
                      (if ''dO2'' = ''dO2'' then 1.58 - temperature ex_reactor * 0.015
                       else 48.39 - temperature ex_reactor * 0.61) *
                      working_volume ex_reactor -
                    uptake / (k * ratio)))"
    by blast
  have "percent = [(''dO2'', 21 / 100), (''dCO2'', 45 / 100000), (''dair'', 1)]"
    using h(2) by (simp add: ex_reactor_stepped_def ex_reactor_stirred_def)
  then have fr: "fraction = 21 / 100" using h(3) by simp
  have ra: "ratio = 1" using h(4) by (simp add: ex_param_def)
  have up: "uptake = 1 / 100" using h(5) by (simp add: ex_cells_def)
  have m0: "m = 0" using h(6) by (simp add: ex_reactor_def)
  have k: "k \<noteq> 0" using h(7) ra by simp
  have "map_of (mole (ex_reactor_stepped k0)) ''dO2'' =
        Some (exp (- k) * 0 +
              (1 - exp (- k)) * (21 / 100 * (10981 / 10000) * (158 / 100 - 30 * (15 / 1000)) * 1 -
                 (1 / 100) / k))"
    using v unfolding fr ra up m0 by (simp add: ex_param_def ex_reactor_def)
  with s h(1) k d l g show ?thesis by blast
qed

text \<open>
  C3, as the code has it. A call of \<open>check_and_update\<close> reuses the cached kLa, gas
  fractions and shear values exactly when the command equals the previously
  applied one and the liquid feed rate is zero; when the command differs from the
  previous one or the liquid feed rate is not zero, a call that returns has recomputed
  all of them from the current command.
\<close>

theorem cache_recompute_rule:
  "(dict_eq a (old br) \<and> map_of a ''liquid_volume'' = Some 0 \<longrightarrow>
      fst (check_and_update p a br) = Inr () \<and>
      kla (snd (check_and_update p a br)) = kla br \<and>
      gas_percentages (snd (check_and_update p a br)) = gas_percentages br \<and>
      mean_shear (snd (check_and_update p a br)) = mean_shear br \<and>
      max_shear (snd (check_and_update p a br)) = max_shear br) \<and>
   ((\<not> dict_eq a (old br) \<or> map_of a ''liquid_volume'' \<noteq> Some 0) \<and>
    fst (check_and_update p a br) = Inr () \<longrightarrow>
      (\<exists>k percent rps ms.
         new_kla p a br = Inr k \<and> calc_gas_percentages p a = Inr percent \<and>
         map_of a ''RPS'' = Some rps \<and> mean_shear_of br rps = Inr ms \<and>
         kla (snd (check_and_update p a br)) = Some k \<and>
         gas_percentages (snd (check_and_update p a br)) = Some percent \<and>
         mean_shear (snd (check_and_update p a br)) = Some ms \<and>
         max_shear (snd (check_and_update p a br)) = Some (ms / 4.2 * 9.7)))"
proof (intro conjI impI)
  assume h: "(\<not> dict_eq a (old br) \<or> map_of a ''liquid_volume'' \<noteq> Some 0) \<and>
    fst (check_and_update p a br) = Inr ()"
  then have "\<not> (dict_eq a (old br) \<and> map_of a ''liquid_volume'' = Some 0)" by blast
  with h obtain k percent rps ms where
    "new_kla p a br = Inr k" "calc_gas_percentages p a = Inr percent"
    "map_of a ''RPS'' = Some rps" "mean_shear_of br rps = Inr ms"
    "snd (check_and_update p a br) =
             br\<lparr>current_time := current_time br + resolution p,
                old := a, kla := Some k, gas_percentages := Some percent,
                mean_shear := Some ms, max_shear := Some (ms / 4.2 * 9.7)\<rparr>"
    using check_and_update_recompute [of a br p] by blast
  then show "\<exists>k percent rps ms.
         new_kla p a br = Inr k \<and> calc_gas_percentages p a = Inr percent \<and>
         map_of a ''RPS'' = Some rps \<and> mean_shear_of br rps = Inr ms \<and>
         kla (snd (check_and_update p a br)) = Some k \<and>
         gas_percentages (snd (check_and_update p a br)) = Some percent \<and>
         mean_shear (snd (check_and_update p a br)) = Some ms \<and>
         max_shear (snd (check_and_update p a br)) = Some (ms / 4.2 * 9.7)"
    by simp
qed (simp_all add: check_and_update_reuse)

lemma ex_second_command:
  assumes "0 < k"
  shows "\<exists>k'. check_and_update ex_param ex_actuation_slow (ex_reactor_stirred k) =
     (Inr (), (ex_reactor_stirred k)\<lparr>current_time := 2, old := ex_actuation_slow, kla := Some k',
        mean_shear := Some (ex_shear 2), max_shear := Some (ex_shear 2 / 4.2 * 9.7)\<rparr>)"
proof -
  let ?br = "ex_reactor_stirred k"
  obtain k' where k': "new_kla ex_param ex_actuation_slow ?br = Inr k'"
    using ex_new_kla [of ?br ex_actuation_slow 2]
    by (auto simp: ex_reactor_stirred_def ex_reactor_def ex_actuation_slow_def ex_actuation_def
        setitem_def)
  have d: "\<not> dict_eq ex_actuation_slow (old ?br) \<or>
      (\<exists>lv. map_of ex_actuation_slow ''liquid_volume'' = Some lv \<and> lv \<noteq> 0)"
    by (simp add: dict_eq_def ex_actuation_slow_def ex_actuation_def ex_reactor_stirred_def
        setitem_def)
  have g: "calc_gas_percentages ex_param ex_actuation_slow =
     Inr [(''dO2'', 21 / 100), (''dCO2'', 45 / 100000), (''dair'', 1)]"
    by (rule ex_gas_percentages) (simp_all add: ex_actuation_slow_def ex_actuation_def setitem_def)
  have r: "map_of ex_actuation_slow ''RPS'' = Some 2"
    by (simp add: ex_actuation_slow_def ex_actuation_def setitem_def)
  have m: "mean_shear_of ?br 2 = Inr (ex_shear 2)"
    by (rule ex_mean_shear) (simp_all add: ex_reactor_stirred_def ex_reactor_def)
  have "check_and_update ex_param ex_actuation_slow ?br =
     (Inr (), ?br\<lparr>current_time := current_time ?br + resolution ex_param,
        old := ex_actuation_slow, kla := Some k',
        gas_percentages := Some [(''dO2'', 21 / 100), (''dCO2'', 45 / 100000), (''dair'', 1)],
        mean_shear := Some (ex_shear 2),
        max_shear := Some (ex_shear 2 / 4.2 * 9.7)\<rparr>)"
    by (rule check_and_update_recomputes [OF d k' g r m])
  then show ?thesis
    by (intro exI [of _ k']) (simp add: ex_reactor_stirred_def ex_reactor_def ex_param_def)
qed

lemma ex_shear_differ: "ex_shear 2 \<noteq> ex_shear 3"
proof -
  have "(0::real) < (6 / 13) powr 0.3" by simp
  then show ?thesis by (simp add: ex_shear_def)
qed

text \<open>
  After a first command, a second one that differs in the stirrer speed and has a
  zero liquid feed rate changes the cached mean shear: the cache is not kept although
  the feed rate is zero.
\<close>

theorem cache_rule_counterexample:
  "fst (check_and_update ex_param ex_actuation ex_reactor) = Inr () \<and>
   \<not> dict_eq ex_actuation_slow (old (snd (check_and_update ex_param ex_actuation ex_reactor))) \<and>
   map_of ex_actuation_slow ''liquid_volume'' = Some 0 \<and>
   fst (check_and_update ex_param ex_actuation_slow
          (snd (check_and_update ex_param ex_actuation ex_reactor))) = Inr () \<and>
   mean_shear (snd (check_and_update ex_param ex_actuation_slow
          (snd (check_and_update ex_param ex_actuation ex_reactor)))) \<noteq>
   mean_shear (snd (check_and_update ex_param ex_actuation ex_reactor))"
proof -
  obtain k where k: "0 < k" and
    c: "check_and_update ex_param ex_actuation ex_reactor = (Inr (), ex_reactor_stirred k)"
    using ex_first_command by blast
  obtain k' where c': "check_and_update ex_param ex_actuation_slow (ex_reactor_stirred k) =
     (Inr (), (ex_reactor_stirred k)\<lparr>current_time := 2, old := ex_actuation_slow, kla := Some k',
        mean_shear := Some (ex_shear 2), max_shear := Some (ex_shear 2 / 4.2 * 9.7)\<rparr>)"
    using ex_second_command [OF k] by blast
  have d: "\<not> dict_eq ex_actuation_slow (old (ex_reactor_stirred k))"
    by (simp add: dict_eq_def ex_actuation_slow_def ex_actuation_def ex_reactor_stirred_def
        setitem_def)
  have l: "map_of ex_actuation_slow ''liquid_volume'' = Some 0"
    by (simp add: ex_actuation_slow_def ex_actuation_def setitem_def)
  have s: "mean_shear (ex_reactor_stirred k) = Some (ex_shear 3)"
    by (simp add: ex_reactor_stirred_def)
  show ?thesis using d l s ex_shear_differ by (simp add: c c')
qed

section \<open>The rules at work in the reference scenario\<close>

theorem cache_recompute_rule_witness:
  "dict_eq ex_actuation (old (snd (check_and_update ex_param ex_actuation ex_reactor))) \<and>
   map_of ex_actuation ''liquid_volume'' = Some 0 \<and>
   fst (check_and_update ex_param ex_actuation
          (snd (check_and_update ex_param ex_actuation ex_reactor))) = Inr () \<and>
   kla (snd (check_and_update ex_param ex_actuation
          (snd (check_and_update ex_param ex_actuation ex_reactor)))) =
     kla (snd (check_and_update ex_param ex_actuation ex_reactor)) \<and>
   \<not> dict_eq ex_actuation (old ex_reactor) \<and>
   fst (check_and_update ex_param ex_actuation ex_reactor) = Inr () \<and>
   (\<exists>k. new_kla ex_param ex_actuation ex_reactor = Inr k \<and>
        kla (snd (check_and_update ex_param ex_actuation ex_reactor)) = Some k) \<and>
   gas_percentages (snd (check_and_update ex_param ex_actuation ex_reactor)) =
     Some [(''dO2'', 21 / 100), (''dCO2'', 45 / 100000), (''dair'', 1)]"
proof -
  obtain k where k: "0 < k" and
    c: "check_and_update ex_param ex_actuation ex_reactor = (Inr (), ex_reactor_stirred k)"
    using ex_first_command by blast
  have same: "dict_eq ex_actuation (old (ex_reactor_stirred k))"
    by (simp add: dict_eq_iff ex_reactor_stirred_def)
  have lv: "map_of ex_actuation ''liquid_volume'' = Some 0"
    by (simp add: ex_actuation_def)
  have differs: "\<not> dict_eq ex_actuation (old ex_reactor)"
    by (simp add: dict_eq_def ex_actuation_def ex_reactor_def)
  have ok: "fst (check_and_update ex_param ex_actuation ex_reactor) = Inr ()"
    by (simp add: c)
  have g: "gas_percentages (snd (check_and_update ex_param ex_actuation ex_reactor)) =
     Some [(''dO2'', 21 / 100), (''dCO2'', 45 / 100000), (''dair'', 1)]"
    by (simp add: c ex_reactor_stirred_def)
  from cache_recompute_rule [of ex_actuation "ex_reactor_stirred k" ex_param] same lv
  have reuse: "fst (check_and_update ex_param ex_actuation (ex_reactor_stirred k)) = Inr () \<and>
      kla (snd (check_and_update ex_param ex_actuation (ex_reactor_stirred k))) =
        kla (ex_reactor_stirred k)"
    by blast
  from cache_recompute_rule [of ex_actuation ex_reactor ex_param] differs ok
  have "\<exists>k. new_kla ex_param ex_actuation ex_reactor = Inr k \<and>
        kla (snd (check_and_update ex_param ex_actuation ex_reactor)) = Some k"
    by blast
  with reuse same lv differs ok g show ?thesis by (simp add: c)
qed

theorem unfed_species_conserved_witness:
  "\<not> exchanged ex_param ''glucose'' \<and>
   map_of ex_actuation ''glucose'' = Some 0 \<and>
   map_of (mass_transfer ex_cells) ''glucose'' = Some 0 \<and>
   (\<exists>env. fst (step ex_param ex_actuation ex_cells ex_reactor) = Inr env) \<and>
   map_of (mole ex_reactor) ''glucose'' = Some 5 \<and>
   map_of (mole (snd (step ex_param ex_actuation ex_cells ex_reactor))) ''glucose'' = Some 5"
proof -
  have e: "\<not> exchanged ex_param ''glucose''" by (simp add: exchanged_def ex_param_def)
  have f: "map_of ex_actuation ''glucose'' = Some 0" by (simp add: ex_actuation_def)
  have u: "map_of (mass_transfer ex_cells) ''glucose'' = Some 0" by (simp add: ex_cells_def)
  have m: "map_of (mole ex_reactor) ''glucose'' = Some 5" by (simp add: ex_reactor_def)
  have s: "\<exists>env. fst (step ex_param ex_actuation ex_cells ex_reactor) = Inr env"
    using ex_step_succeeds by auto
  show ?thesis
    using unfed_species_conserved [OF e f u, of ex_reactor] e f u m s by simp
qed

section \<open>Two runs from the same construction arguments\<close>









section \<open>Rounding in the pH solver\<close>

lemma round_even_of_int [simp]: "round_even (of_int m) = m"
  by (simp add: round_even_def)

lemma round_even_below_half:
  assumes "0 \<le> r" and "r < 1 / 2"
  shows "round_even (of_int m + r) = m"
proof -
  have "\<lfloor>of_int m + r\<rfloor> = m" using assms by (simp add: floor_unique)
  then show ?thesis using assms by (simp add: round_even_def)
qed

lemma round_even_nonneg: "0 \<le> x \<Longrightarrow> 0 \<le> round_even x"
  by (auto simp: round_even_def Let_def)

lemma round_even_le: "of_int (round_even x) \<le> x + 1 / 2"
proof -
  have "of_int \<lfloor>x\<rfloor> \<le> x" by simp
  then show ?thesis by (auto simp: round_even_def Let_def) linarith+
qed

lemma binary64_zero [simp]: "binary64 0 = 0"
  by (simp add: binary64_def)

lemma exponent_eq:
  fixes x :: real
  assumes "2 ^ e \<le> \<bar>x\<bar>" and "\<bar>x\<bar> < 2 ^ (e + 1)"
  shows "\<lfloor>log 2 \<bar>x\<bar>\<rfloor> = int e"
proof -
  have pos: "0 < \<bar>x\<bar>" using assms(1) by (smt (verit) zero_less_power)
  have "real_of_int (int e + 1) = real (e + 1)" by simp
  then have "(2::real) powr real_of_int (int e + 1) = 2 powr real (e + 1)" by (simp only:)
  also have "\<dots> = 2 ^ (e + 1)" by (rule powr_realpow) simp
  finally have hi: "(2::real) powr real_of_int (int e + 1) = 2 ^ (e + 1)" .
  have lo: "(2::real) powr real_of_int (int e) = 2 ^ e" by (simp add: powr_realpow)
  have "2 powr real_of_int (int e) \<le> \<bar>x\<bar> \<and> \<bar>x\<bar> < 2 powr real_of_int (int e + 1)"
    unfolding hi lo using assms by simp
  then show ?thesis using pos by (simp add: floor_log_eq_powr_iff)
qed

lemma binary64_scaled:
  fixes x :: real
  assumes "2 ^ e \<le> \<bar>x\<bar>" and "\<bar>x\<bar> < 2 ^ (e + 1)" and "e \<le> 52"
  shows "binary64 x = of_int (round_even (x * 2 ^ (52 - e))) / 2 ^ (52 - e)"
proof -
  have x0: "x \<noteq> 0" using assms(1) by (smt (verit) zero_less_power abs_zero)
  have e: "\<lfloor>log 2 \<bar>x\<bar>\<rfloor> = int e" by (rule exponent_eq [OF assms(1,2)])
  have d: "real_of_int (52 - int e) = real (52 - e)" using assms(3) by simp
  have "(2::real) powr real (52 - e) = 2 ^ (52 - e)" by (rule powr_realpow) simp
  then have up: "(2::real) powr of_int (52 - int e) = 2 ^ (52 - e)" by (simp only: d)
  have "real_of_int (int e - 52) = - real (52 - e)" using assms(3) by simp
  then have "(2::real) powr of_int (int e - 52) = 2 powr (- real (52 - e))" by (simp only:)
  also have "\<dots> = 1 / 2 powr real (52 - e)" by (simp add: powr_minus_divide)
  also have "\<dots> = 1 / 2 ^ (52 - e)" by (simp only: powr_realpow [of 2, simplified])
  finally have down: "(2::real) powr of_int (int e - 52) = 1 / 2 ^ (52 - e)" .
  show ?thesis using x0 unfolding binary64_def Let_def e up down by simp
qed

lemma binary64_exact:
  fixes x :: real
  assumes "2 ^ e \<le> \<bar>x\<bar>" and "\<bar>x\<bar> < 2 ^ (e + 1)" and "e \<le> 52"
    and "x * 2 ^ (52 - e) = of_int m"
  shows "binary64 x = x"
proof -
  have "binary64 x = of_int m / 2 ^ (52 - e)"
    by (simp add: binary64_scaled [OF assms(1,2,3)] assms(4))
  also have "\<dots> = x" using assms(4) [symmetric] by simp
  finally show ?thesis .
qed

lemma binary64_absorb:
  fixes x d :: real
  assumes "2 ^ e \<le> x" and "x + d < 2 ^ (e + 1)" and "e \<le> 52"
    and "x * 2 ^ (52 - e) = of_int m" and "0 \<le> d" and "d * 2 ^ (52 - e) < 1 / 2"
  shows "binary64 (x + d) = x"
proof -
  have a: "2 ^ e \<le> \<bar>x + d\<bar>" using assms(1,5) by simp
  have x0: "0 \<le> x" using assms(1) by (smt (verit) zero_le_power)
  have b: "\<bar>x + d\<bar> < 2 ^ (e + 1)" using assms(2,5) x0 by simp
  have "(x + d) * 2 ^ (52 - e) = of_int m + d * 2 ^ (52 - e)"
    using assms(4) by (simp add: algebra_simps)
  moreover have "round_even (of_int m + d * 2 ^ (52 - e)) = m"
    using assms(5,6) by (intro round_even_below_half) simp_all
  ultimately have "binary64 (x + d) = of_int m / 2 ^ (52 - e)"
    by (simp add: binary64_scaled [OF a b assms(3)])
  also have "\<dots> = x" using assms(4) [symmetric] by simp
  finally show ?thesis .
qed

lemma binary64_20 [simp]: "binary64 20 = 20"
  by (rule binary64_exact [where e = 4 and m = "20 * 2 ^ 48"]) simp_all

lemma binary64_minus_20 [simp]: "binary64 (- 20) = - 20"
  by (rule binary64_exact [where e = 4 and m = "- (20 * 2 ^ 48)"]) simp_all

lemma binary64_40 [simp]: "binary64 40 = 40"
  by (rule binary64_exact [where e = 5 and m = "40 * 2 ^ 47"]) simp_all

lemma binary64_400 [simp]: "binary64 400 = 400"
  by (rule binary64_exact [where e = 8 and m = "400 * 2 ^ 44"]) simp_all

lemma binary64_nonneg:
  assumes "0 \<le> x"
  shows "0 \<le> binary64 x"
proof (cases "x = 0")
  case True
  then show ?thesis by simp
next
  case False
  let ?e = "\<lfloor>log 2 \<bar>x\<bar>\<rfloor>"
  have "0 \<le> x * 2 powr of_int (52 - ?e)" using assms by simp
  then have "0 \<le> round_even (x * 2 powr of_int (52 - ?e))" by (rule round_even_nonneg)
  then show ?thesis using False by (simp add: binary64_def Let_def)
qed

lemma binary64_le_double:
  assumes "0 < x"
  shows "binary64 x \<le> 2 * x"
proof -
  let ?e = "\<lfloor>log 2 \<bar>x\<bar>\<rfloor>"
  let ?s = "(2::real) powr of_int (52 - ?e)"
  let ?m = "x * ?s"
  have s0: "0 < ?s" by simp
  have "of_int ?e \<le> log 2 x" using assms by simp
  then have "2 powr of_int ?e \<le> 2 powr log 2 x" by (simp only: powr_le_cancel_iff)
  then have lo: "2 powr of_int ?e \<le> x" using assms by simp
  have "2 powr of_int ?e * ?s \<le> x * ?s" using lo s0 by (intro mult_right_mono) simp_all
  moreover have "2 powr of_int ?e * ?s = 2 powr 52"
    by (simp add: powr_add [symmetric])
  moreover have "(1::real) \<le> 2 powr 52" by simp
  ultimately have m1: "1 \<le> ?m" by linarith
  have "of_int (round_even ?m) \<le> ?m + 1 / 2" by (rule round_even_le)
  with m1 have r: "of_int (round_even ?m) \<le> 2 * ?m" by linarith
  have inv: "?s * 2 powr of_int (?e - 52) = 1"
    by (simp add: powr_add [symmetric])
  have "binary64 x = of_int (round_even ?m) * 2 powr of_int (?e - 52)"
    using assms by (simp add: binary64_def Let_def)
  also have "\<dots> \<le> (2 * ?m) * 2 powr of_int (?e - 52)"
    using r by (intro mult_right_mono) simp_all
  also have "\<dots> = 2 * x * (?s * 2 powr of_int (?e - 52))" by (simp add: mult.assoc)
  also have "\<dots> = 2 * x" by (simp only: inv mult_1_right)
  finally show ?thesis .
qed

lemma water_constant_absorbed: "binary64 (400 + binary64 (10 powr (- 14))) = 400"
proof -
  let ?c = "binary64 (10 powr (- 14))"
  have c0: "0 \<le> ?c" by (rule binary64_nonneg) simp
  have t: "(10::real) powr (- 14) = 1 / 10 ^ 14"
    by (simp add: powr_minus_divide)
  have "?c \<le> 2 * 10 powr (- 14)" by (rule binary64_le_double) simp
  then have c1: "?c \<le> 2 / 10 ^ 14" by (simp add: t)
  have small: "?c * 2 ^ (52 - 8) < 1 / 2"
  proof -
    have "?c * 2 ^ (52 - 8) \<le> (2 / 10 ^ 14) * 2 ^ (52 - 8)"
      using c1 by (intro mult_right_mono) simp_all
    also have "\<dots> < 1 / 2" by simp
    finally show ?thesis .
  qed
  have below: "400 + ?c < 2 ^ (8 + 1)" using c1 by simp
  show ?thesis
    by (rule binary64_absorb [where e = 8 and m = "400 * 2 ^ 44", OF _ below _ _ c0 small])
      simp_all
qed

lemma ex_reactor_salty_constructed:
  "bioreactor_init ex_param 0 [(''Na'', 40)] 1 30 3 ex_agitator
     (13 / 100) (2 / 100) (2 / 100000) 1 50 1 = Inr ex_reactor_salty"
proof -
  have "initial_mole (liquid_components ex_param) [(''Na'', 40)] = mole ex_reactor_salty"
    by (simp add: initial_mole_def ex_param_def ex_reactor_salty_def setitem_def)
  then show ?thesis
    unfolding bioreactor_init_def Let_def ex_closure_created
    by (simp add: ex_reactor_salty_def ex_reactor_def ex_param_def)
qed

lemma sqrt_400: "sqrt 400 = 20"
  by (rule real_sqrt_unique) simp_all

lemma ex_salty_net_charge:
  "net_charge_rounded binary64 ex_param ex_reactor_salty = Inr (Quant 40 1)"
  by (simp add: net_charge_rounded_def ex_param_def ex_reactor_salty_def ex_reactor_def
      divide_rounded_def sum_numbers_def conversion_def)

lemma ex_salty_discriminant:
  "discriminant_rounded binary64 ex_reactor_salty (Quant 40 1) = Inr (Quant 400 1)"
  by (simp add: discriminant_rounded_def ex_reactor_salty_def ex_reactor_def divide_rounded_def
      conversion_def getitem_def water_constant_absorbed)

lemma ex_salty_log_argument: "log_argument binary64 (Quant 40 1) 20 = Quant 0 1"
  by (simp add: log_argument_def conversion_def)

text \<open>
  With the amounts in mole, a net charge of 40 and no dissolved carbon dioxide, the
  water constant is absorbed by the rounding of \<open>400 + 10\<^sup>-\<^sup>1\<^sup>4\<close>, the root is exactly 20,
  the argument of the logarithm is exactly 0, and the solver raises a math domain error.
\<close>

theorem pH_binary64_counterexample:
  "0 < working_volume ex_reactor_salty \<and>
   map_of (mole ex_reactor_salty) ''dCO2'' = Some 0 \<and>
   pH64 ex_param ex_reactor_salty = Inl (ValueError ''math domain error'')"
  by (simp add: pH64_def pH_rounded_def ex_salty_net_charge ex_salty_discriminant math_sqrt_def
      sqrt_400 ex_salty_log_argument math_log10_def)
    (simp add: ex_reactor_salty_def ex_reactor_def)

end
